theory Spec2Isabelle
  imports Complex_Main
begin

section \<open>Line tracer: data model\<close>

text \<open>
  The controller of \<^verbatim>\<open>Perfect_Program.py\<close> (class \<^verbatim>\<open>LineTracer\<close>) and the
  module-level regulator of \<^verbatim>\<open>Level4_Program.py\<close>.

  Numbers. The source mixes Python integers and floats. They are modelled as exact
  rationals (\<^typ>\<open>rat\<close>): the literals \<^verbatim>\<open>0.5\<close>, \<^verbatim>\<open>0.8\<close>, \<^verbatim>\<open>0.4\<close>, \<^verbatim>\<open>0.3\<close>,
  \<^verbatim>\<open>0.6\<close>, \<^verbatim>\<open>0.02\<close> are the fractions they denote, and rounding is not modelled.
  The counterexample below uses integer samples on which the floating-point
  computation is exact.

  The attribute \<^verbatim>\<open>gray_zone\<close> does not exist until \<^verbatim>\<open>calibrate\<close> creates it, so it
  is an option. \<^verbatim>\<open>line_position\<close> is an integer (-1, 0, 1); \<^verbatim>\<open>history_size\<close> is a
  length. The stopwatch, display, speaker and console take no part in control and are
  left out.
\<close>

record LineTracer =
  black_threshold :: rat
  white_threshold :: rat
  target_value :: rat
  kp :: rat
  ki :: rat
  kd :: rat
  integral :: rat
  last_error :: rat
  integral_limit :: rat
  base_speed :: rat
  max_turn_rate :: rat
  error_history :: "rat list"
  history_size :: nat
  is_calibrated :: bool
  line_position :: int
  gray_zone :: "rat option"

text \<open>\<^verbatim>\<open>LineTracer.__init__\<close>.\<close>

definition LineTracer_init :: LineTracer where
  "LineTracer_init =
     \<lparr> black_threshold = 10, white_threshold = 85, target_value = (10 + 85) / 2,
       kp = 2, ki = 2 / 100, kd = 8 / 10,
       integral = 0, last_error = 0, integral_limit = 100,
       base_speed = 150, max_turn_rate = 250,
       error_history = [], history_size = 10,
       is_calibrated = False, line_position = 0, gray_zone = None \<rparr>"

section \<open>PID regulator\<close>

text \<open>
  \<^verbatim>\<open>detect_oscillation\<close>: the loop \<^verbatim>\<open>for i in range(1, len(h))\<close> counts the indices
  whose entry and predecessor have a negative product.
\<close>

definition sign_changes :: "rat list \<Rightarrow> nat" where
  "sign_changes h = length (filter (\<lambda>i. h ! i * h ! (i - 1) < 0) [1 ..< length h])"

definition detect_oscillation :: "LineTracer \<Rightarrow> bool" where
  "detect_oscillation s =
     (if length (error_history s) < history_size s then False
      else of_nat (sign_changes (error_history s)) > of_nat (history_size s) * (6 / 10 :: rat))"

text \<open>
  \<^verbatim>\<open>calculate_pid\<close>, in the order of its statements: the history update
  (append, then drop the oldest entry when the list is longer than \<^verbatim>\<open>history_size\<close>),
  the accumulation with its anti-windup limit, the oscillation damping, and the limit
  on the turn rate.
\<close>

definition push_history :: "LineTracer \<Rightarrow> rat \<Rightarrow> LineTracer" where
  "push_history s error =
     (let s1 = s\<lparr>error_history := error_history s @ [error]\<rparr>
      in if length (error_history s1) > history_size s1
         then s1\<lparr>error_history := tl (error_history s1)\<rparr> else s1)"

definition accumulate :: "LineTracer \<Rightarrow> rat \<Rightarrow> LineTracer" where
  "accumulate s error =
     (let s1 = s\<lparr>integral := integral s + error\<rparr>
      in if integral s1 > integral_limit s1 then s1\<lparr>integral := integral_limit s1\<rparr>
         else if integral s1 < - integral_limit s1 then s1\<lparr>integral := - integral_limit s1\<rparr>
         else s1)"

definition damp :: "LineTracer \<Rightarrow> LineTracer" where
  "damp s = (if detect_oscillation s then s\<lparr>integral := integral s * (1 / 2)\<rparr> else s)"

definition limit_turn :: "LineTracer \<Rightarrow> rat \<Rightarrow> rat" where
  "limit_turn s turn_rate =
     (if turn_rate > max_turn_rate s then max_turn_rate s
      else if turn_rate < - max_turn_rate s then - max_turn_rate s
      else turn_rate)"

text \<open>The result is the returned turn rate and the updated object.\<close>

definition calculate_pid :: "LineTracer \<Rightarrow> rat \<Rightarrow> rat \<times> LineTracer" where
  "calculate_pid s sensor_value =
     (let error = sensor_value - target_value s;
          s1 = push_history s error;
          s2 = accumulate s1 error;
          s3 = damp s2;
          derivative = error - last_error s3;
          turn_rate = kp s3 * error + ki s3 * integral s3 + kd s3 * derivative
      in (limit_turn s3 turn_rate, s3\<lparr>last_error := error\<rparr>))"

text \<open>Feeding a sequence of sensor values to the regulator, one update per value.\<close>

fun updates :: "LineTracer \<Rightarrow> rat list \<Rightarrow> LineTracer" where
  "updates s [] = s"
| "updates s (v # vs) = updates (snd (calculate_pid s v)) vs"

section \<open>Devices\<close>

text \<open>
  The sensor and the drive base are the program's only contact with the world that
  matters to control. The \<open>k\<close>-th call of \<^verbatim>\<open>color_sensor.reflection()\<close> returns
  \<open>sensor k\<close>; \<open>reads\<close> counts the calls made so far; every sensor read and every
  command to the drive base is logged in \<open>trace\<close>, in order. The successive results of
  polling the centre button are a list, threaded through the functions that poll it:
  when it is used up the program is still waiting or still looping.
\<close>

datatype event = Reflection rat | Drive rat rat | Turn int | Stop

record world =
  sensor :: "nat \<Rightarrow> rat"
  reads :: nat
  trace :: "event list"

definition reflection :: "world \<Rightarrow> rat \<times> world" where
  "reflection w =
     (sensor w (reads w),
      w\<lparr>reads := Suc (reads w), trace := trace w @ [Reflection (sensor w (reads w))]\<rparr>)"

definition robot_drive :: "rat \<Rightarrow> rat \<Rightarrow> world \<Rightarrow> world" where
  "robot_drive speed turn_rate w = w\<lparr>trace := trace w @ [Drive speed turn_rate]\<rparr>"

definition robot_turn :: "int \<Rightarrow> world \<Rightarrow> world" where
  "robot_turn angle w = w\<lparr>trace := trace w @ [Turn angle]\<rparr>"

definition robot_stop :: "world \<Rightarrow> world" where
  "robot_stop w = w\<lparr>trace := trace w @ [Stop]\<rparr>"

section \<open>Calibration\<close>

text \<open>
  \<^verbatim>\<open>while not Button.CENTER in hub.buttons.pressed()\<close>: each round polls the button
  and, when it is not pressed, reads the sensor for display. No result while the button
  list holds no press.
\<close>

fun await_button :: "bool list \<Rightarrow> world \<Rightarrow> (bool list \<times> world) option" where
  "await_button [] w = None"
| "await_button (b # bs) w = (if b then Some (bs, w) else await_button bs (snd (reflection w)))"

text \<open>The assignments that end \<^verbatim>\<open>calibrate\<close>, from the two samples.\<close>

definition set_thresholds :: "LineTracer \<Rightarrow> rat \<Rightarrow> rat \<Rightarrow> LineTracer" where
  "set_thresholds s white_value black_value =
     (let s1 = s\<lparr>black_threshold := black_value + 5\<rparr>;
          s2 = s1\<lparr>white_threshold := white_value - 5\<rparr>;
          s3 = s2\<lparr>target_value := (black_threshold s2 + white_threshold s2) / 2\<rparr>;
          s4 = s3\<lparr>gray_zone := Some ((white_threshold s3 - black_threshold s3) * (3 / 10))\<rparr>
      in s4\<lparr>is_calibrated := True\<rparr>)"

definition calibrate :: "LineTracer \<Rightarrow> bool list \<Rightarrow> world \<Rightarrow> (LineTracer \<times> bool list \<times> world) option" where
  "calibrate s bs w =
     (case await_button bs w of
        None \<Rightarrow> None
      | Some (bs1, w1) \<Rightarrow>
          (let (white_value, w2) = reflection w1
           in case await_button bs1 w2 of
                None \<Rightarrow> None
              | Some (bs2, w3) \<Rightarrow>
                  (let (black_value, w4) = reflection w3
                   in Some (set_thresholds s white_value black_value, bs2, w4))))"

section \<open>Curve detection and line search\<close>

datatype curve = sharp_left | sharp_right

definition detect_sharp_curve :: "LineTracer \<Rightarrow> rat \<Rightarrow> curve option" where
  "detect_sharp_curve s sensor_value =
     (if sensor_value < black_threshold s + 10 then Some sharp_left
      else if sensor_value > white_threshold s - 10 then Some sharp_right
      else None)"

text \<open>
  The \<^verbatim>\<open>for angle in search_pattern\<close> loop of \<^verbatim>\<open>search_line\<close>: the flag tells
  whether the loop returned \<^verbatim>\<open>True\<close> from inside.
\<close>

fun search_loop :: "int list \<Rightarrow> LineTracer \<Rightarrow> world \<Rightarrow> bool \<times> LineTracer \<times> world" where
  "search_loop [] s w = (False, s, w)"
| "search_loop (angle # angles) s w =
     (let w1 = robot_turn angle w;
          (r, w2) = reflection w1
      in if r < target_value s
         then (True, s\<lparr>line_position := (if angle > 0 then - 1 else 1)\<rparr>, w2)
         else search_loop angles s w2)"

definition search_pattern :: "LineTracer \<Rightarrow> int list" where
  "search_pattern s =
     (if line_position s < 0 then [30, - 60, 90, - 120, 150, - 180]
      else [- 30, 60, - 90, 120, - 150, 180])"

definition search_line :: "LineTracer \<Rightarrow> world \<Rightarrow> bool \<times> LineTracer \<times> world" where
  "search_line s w =
     (let (found, s1, w1) = search_loop (search_pattern s) s w
      in if found then (True, s1, w1) else (False, s1, robot_stop w1))"

section \<open>Control loop\<close>

datatype py_error = AttributeError | ZeroDivisionError

text \<open>
  The lost-line block at the head of the loop body. \<open>Inl\<close> is the \<^verbatim>\<open>break\<close> after a
  failed search; \<open>Inr\<close> carries on with the new counter.
\<close>

definition lost_line_check ::
  "LineTracer \<Rightarrow> nat \<Rightarrow> rat \<Rightarrow> world \<Rightarrow> (LineTracer \<times> world) + (LineTracer \<times> nat \<times> world)" where
  "lost_line_check s lost_line_count sensor_value w =
     (if sensor_value > white_threshold s + 5
      then (let lost = lost_line_count + 1
            in if lost > 5
               then (case search_line s w of
                       (False, s1, w1) \<Rightarrow> Inl (s1, w1)
                     | (True, s1, w1) \<Rightarrow> Inr (s1, 0, w1))
               else Inr (s, lost, w))
      else Inr (s, 0, w))"

text \<open>
  The rest of the loop body: the sharp-curve commands, or the regulator, the speed
  reduction and the line position. \<^verbatim>\<open>abs(turn_rate) / self.max_turn_rate\<close> raises
  for a zero divisor, and \<^verbatim>\<open>self.gray_zone\<close> for an object that \<^verbatim>\<open>calibrate\<close> has
  not touched.
\<close>

definition steer :: "LineTracer \<Rightarrow> rat \<Rightarrow> world \<Rightarrow> py_error + (LineTracer \<times> world)" where
  "steer s sensor_value w =
     (case detect_sharp_curve s sensor_value of
        Some sharp_left \<Rightarrow>
          Inr (s\<lparr>line_position := - 1\<rparr>,
               robot_drive (base_speed s * (1 / 2)) (- max_turn_rate s * (8 / 10)) w)
      | Some sharp_right \<Rightarrow>
          Inr (s\<lparr>line_position := 1\<rparr>,
               robot_drive (base_speed s * (1 / 2)) (max_turn_rate s * (8 / 10)) w)
      | None \<Rightarrow>
          (let (turn_rate, s1) = calculate_pid s sensor_value
           in if max_turn_rate s1 = 0 then Inl ZeroDivisionError
              else
                (let speed_factor = 1 - (\<bar>turn_rate\<bar> / max_turn_rate s1) * (4 / 10);
                     current_speed = base_speed s1 * speed_factor;
                     w1 = robot_drive current_speed turn_rate w
                 in case gray_zone s1 of
                      None \<Rightarrow> Inl AttributeError
                    | Some gz \<Rightarrow>
                        Inr (s1\<lparr>line_position :=
                                   (if \<bar>sensor_value - target_value s1\<bar> < gz then 0
                                    else if sensor_value < target_value s1 then - 1
                                    else 1)\<rparr>, w1))))"

datatype stop_reason = button_pressed | line_lost

datatype outcome =
    Exited stop_reason LineTracer world
  | Raised py_error
  | Running LineTracer nat world
  | Calibrating

text \<open>
  \<^verbatim>\<open>while True\<close>: one round per button poll. \<open>Running\<close> is the loop at the head of
  a round with the polls used up; it shows the counter \<^verbatim>\<open>lost_line_count\<close>.
\<close>

fun follow_loop :: "bool list \<Rightarrow> LineTracer \<Rightarrow> nat \<Rightarrow> world \<Rightarrow> outcome" where
  "follow_loop [] s lost_line_count w = Running s lost_line_count w"
| "follow_loop (b # bs) s lost_line_count w =
     (if b then Exited button_pressed s w
      else
        (let (sensor_value, w1) = reflection w
         in case lost_line_check s lost_line_count sensor_value w1 of
              Inl (s2, w2) \<Rightarrow> Exited line_lost s2 w2
            | Inr (s2, lost2, w2) \<Rightarrow>
                (case steer s2 sensor_value w2 of
                   Inl e \<Rightarrow> Raised e
                 | Inr (s3, w3) \<Rightarrow> follow_loop bs s3 lost2 w3)))"

text \<open>
  \<^verbatim>\<open>follow_line\<close>: calibrate if that has not been done, loop, and stop the robot
  once the loop is left.
\<close>

definition follow_line :: "LineTracer \<Rightarrow> bool list \<Rightarrow> world \<Rightarrow> outcome" where
  "follow_line s bs w =
     (case (if \<not> is_calibrated s then calibrate s bs w else Some (s, bs, w)) of
        None \<Rightarrow> Calibrating
      | Some (s1, bs1, w1) \<Rightarrow>
          (case follow_loop bs1 s1 0 w1 of
             Exited r s2 w2 \<Rightarrow> Exited r s2 (robot_stop w2)
           | other \<Rightarrow> other))"

section \<open>The regulator and loop of Level4_Program.py\<close>

text \<open>
  The module-level variables \<^verbatim>\<open>integral\<close> and \<^verbatim>\<open>last_error\<close>; \<^verbatim>\<open>integral_limit\<close>
  is the constant 100 and \<^verbatim>\<open>max_turn\<close> the constant 250.
\<close>

record globals =
  g_integral :: rat
  g_last_error :: rat

definition calculate_pid_control ::
  "globals \<Rightarrow> rat \<Rightarrow> rat \<Rightarrow> rat \<Rightarrow> rat \<Rightarrow> rat \<Rightarrow> (rat \<times> rat) \<times> globals" where
  "calculate_pid_control g sensor_value target kp' ki' kd' =
     (let error = sensor_value - target;
          g1 = g\<lparr>g_integral := g_integral g + error\<rparr>;
          g2 = (if g_integral g1 > 100 then g1\<lparr>g_integral := 100\<rparr>
                else if g_integral g1 < - 100 then g1\<lparr>g_integral := - 100\<rparr>
                else g1);
          derivative = error - g_last_error g2;
          turn_rate = kp' * error + ki' * g_integral g2 + kd' * derivative;
          turn_rate' = (if turn_rate > 250 then 250
                        else if turn_rate < - 250 then - 250 else turn_rate)
      in ((turn_rate', error), g2\<lparr>g_last_error := error\<rparr>))"

definition detect_sharp_curve_l4 :: "rat \<Rightarrow> rat \<Rightarrow> rat \<Rightarrow> curve option" where
  "detect_sharp_curve_l4 sensor_value black_thresh white_thresh =
     (if sensor_value < black_thresh + 5 then Some sharp_left
      else if sensor_value > white_thresh - 5 then Some sharp_right
      else None)"

definition adjust_speed :: "rat \<Rightarrow> rat \<Rightarrow> rat" where
  "adjust_speed base error =
     (let speed = base - \<bar>error\<bar> * (8 / 10) in if speed < 50 then 50 else speed)"

text \<open>
  The curve block of the main loop, with \<^verbatim>\<open>BASE_SPEED = 150\<close>, \<^verbatim>\<open>KP = 2.0\<close>,
  \<^verbatim>\<open>KI = 0.02\<close>, \<^verbatim>\<open>KD = 0.8\<close> and the three values that \<^verbatim>\<open>calibrate\<close> returned.
\<close>

definition steer_l4 :: "globals \<Rightarrow> rat \<Rightarrow> rat \<Rightarrow> rat \<Rightarrow> rat \<Rightarrow> world \<Rightarrow> globals \<times> world" where
  "steer_l4 g target black_thresh white_thresh reading w =
     (case detect_sharp_curve_l4 reading black_thresh white_thresh of
        Some sharp_left \<Rightarrow> (g\<lparr>g_integral := 0\<rparr>, robot_drive (150 * (1 / 2)) (- 200) w)
      | Some sharp_right \<Rightarrow> (g\<lparr>g_integral := 0\<rparr>, robot_drive (150 * (1 / 2)) 200 w)
      | None \<Rightarrow>
          (let ((turn_rate, error), g1) = calculate_pid_control g reading target 2 (2 / 100) (8 / 10);
               current_speed = adjust_speed 150 error
           in (g1, robot_drive current_speed turn_rate w)))"

section \<open>Auxiliary notions and example inputs\<close>

text \<open>A list whose neighbours have strictly opposite signs throughout.\<close>

fun alternating :: "rat list \<Rightarrow> bool" where
  "alternating (x # y # xs) = (y * x < 0 \<and> alternating (y # xs))"
| "alternating xs = True"

text \<open>Ten readings that swing around a target of 50.\<close>

definition zigzag :: "rat list" where
  "zigzag = [70, 40, 70, 40, 70, 40, 70, 40, 70, 40]"

text \<open>
  A world whose sensor returns the listed readings in turn and \<open>d\<close> ever after, and
  the controller after a calibration with white sample 90 and black sample 10
  (thresholds 15 and 85, target 50, gray zone 21).
\<close>

definition readings :: "rat list \<Rightarrow> rat \<Rightarrow> world" where
  "readings rs d = \<lparr> sensor = (\<lambda>k. if k < length rs then rs ! k else d), reads = 0, trace = [] \<rparr>"

definition calibrated :: LineTracer where
  "calibrated = set_thresholds LineTracer_init 90 10"

text \<open>
  What a sweep over the angles \<open>as\<close> that never finds the line logs (a turn, then a
  sample, for each angle), and the turn commands found in a trace.
\<close>

fun sweep_events :: "int list \<Rightarrow> (nat \<Rightarrow> rat) \<Rightarrow> nat \<Rightarrow> event list" where
  "sweep_events [] f k = []"
| "sweep_events (a # as) f k = Turn a # Reflection (f k) # sweep_events as f (Suc k)"

fun turns :: "event list \<Rightarrow> int list" where
  "turns [] = []"
| "turns (Turn a # es) = a # turns es"
| "turns (e # es) = turns es"

section \<open>Regulator: properties\<close>

lemma sign_changes_Nil [simp]: "sign_changes [] = 0"
  by (simp add: sign_changes_def)

lemma sign_changes_single [simp]: "sign_changes [x] = 0"
  by (simp add: sign_changes_def)

lemma sign_changes_Cons:
  "sign_changes (x # y # xs) = (if y * x < 0 then 1 else 0) + sign_changes (y # xs)"
proof -
  let ?h = "x # y # xs"
  have "[1 ..< Suc (Suc (length xs))] = 1 # [Suc 1 ..< Suc (Suc (length xs))]"
    by (rule upt_conv_Cons) simp
  then have upt: "[1 ..< length ?h] = 1 # map Suc [1 ..< length (y # xs)]"
    by (simp only: map_Suc_upt list.size length_Cons) simp
  have "filter (\<lambda>i. ?h ! i * ?h ! (i - 1) < 0) (map Suc [1 ..< length (y # xs)])
        = map Suc (filter (\<lambda>i. (y # xs) ! i * (y # xs) ! (i - 1) < 0) [1 ..< length (y # xs)])"
    unfolding filter_map comp_def
    by (rule arg_cong [where f = "map Suc"], rule filter_cong) (auto simp: nth_Cons')
  then show ?thesis
    unfolding sign_changes_def upt by simp
qed

lemma push_history_fields [simp]:
  "kp (push_history s e) = kp s"
  "ki (push_history s e) = ki s"
  "kd (push_history s e) = kd s"
  "integral (push_history s e) = integral s"
  "last_error (push_history s e) = last_error s"
  "target_value (push_history s e) = target_value s"
  "integral_limit (push_history s e) = integral_limit s"
  "max_turn_rate (push_history s e) = max_turn_rate s"
  "base_speed (push_history s e) = base_speed s"
  "history_size (push_history s e) = history_size s"
  "black_threshold (push_history s e) = black_threshold s"
  "white_threshold (push_history s e) = white_threshold s"
  "gray_zone (push_history s e) = gray_zone s"
  "is_calibrated (push_history s e) = is_calibrated s"
  "line_position (push_history s e) = line_position s"
  by (simp_all add: push_history_def Let_def)

lemma accumulate_fields [simp]:
  "kp (accumulate s e) = kp s"
  "ki (accumulate s e) = ki s"
  "kd (accumulate s e) = kd s"
  "error_history (accumulate s e) = error_history s"
  "last_error (accumulate s e) = last_error s"
  "target_value (accumulate s e) = target_value s"
  "integral_limit (accumulate s e) = integral_limit s"
  "max_turn_rate (accumulate s e) = max_turn_rate s"
  "base_speed (accumulate s e) = base_speed s"
  "history_size (accumulate s e) = history_size s"
  "black_threshold (accumulate s e) = black_threshold s"
  "white_threshold (accumulate s e) = white_threshold s"
  "gray_zone (accumulate s e) = gray_zone s"
  "is_calibrated (accumulate s e) = is_calibrated s"
  "line_position (accumulate s e) = line_position s"
  by (simp_all add: accumulate_def Let_def)

lemma damp_fields [simp]:
  "kp (damp s) = kp s"
  "ki (damp s) = ki s"
  "kd (damp s) = kd s"
  "error_history (damp s) = error_history s"
  "last_error (damp s) = last_error s"
  "target_value (damp s) = target_value s"
  "integral_limit (damp s) = integral_limit s"
  "max_turn_rate (damp s) = max_turn_rate s"
  "base_speed (damp s) = base_speed s"
  "history_size (damp s) = history_size s"
  "black_threshold (damp s) = black_threshold s"
  "white_threshold (damp s) = white_threshold s"
  "gray_zone (damp s) = gray_zone s"
  "is_calibrated (damp s) = is_calibrated s"
  "line_position (damp s) = line_position s"
  by (simp_all add: damp_def)

lemma calculate_pid_fields [simp]:
  "kp (snd (calculate_pid s v)) = kp s"
  "ki (snd (calculate_pid s v)) = ki s"
  "kd (snd (calculate_pid s v)) = kd s"
  "target_value (snd (calculate_pid s v)) = target_value s"
  "integral_limit (snd (calculate_pid s v)) = integral_limit s"
  "max_turn_rate (snd (calculate_pid s v)) = max_turn_rate s"
  "base_speed (snd (calculate_pid s v)) = base_speed s"
  "history_size (snd (calculate_pid s v)) = history_size s"
  "black_threshold (snd (calculate_pid s v)) = black_threshold s"
  "white_threshold (snd (calculate_pid s v)) = white_threshold s"
  "gray_zone (snd (calculate_pid s v)) = gray_zone s"
  "is_calibrated (snd (calculate_pid s v)) = is_calibrated s"
  "line_position (snd (calculate_pid s v)) = line_position s"
  "last_error (snd (calculate_pid s v)) = v - target_value s"
  by (simp_all add: calculate_pid_def Let_def)

lemma calculate_pid_history:
  "error_history (snd (calculate_pid s v)) = error_history (push_history s (v - target_value s))"
  by (simp add: calculate_pid_def Let_def)

lemma calculate_pid_integral:
  "integral (snd (calculate_pid s v)) =
     integral (damp (accumulate (push_history s (v - target_value s)) (v - target_value s)))"
  by (simp add: calculate_pid_def Let_def)

lemma calculate_pid_turn:
  "fst (calculate_pid s v) =
     limit_turn s (kp s * (v - target_value s) + ki s * integral (snd (calculate_pid s v))
                   + kd s * ((v - target_value s) - last_error s))"
  by (simp add: calculate_pid_def Let_def limit_turn_def)

lemma limit_turn_bound: "0 \<le> max_turn_rate s \<Longrightarrow> \<bar>limit_turn s x\<bar> \<le> max_turn_rate s"
  by (simp add: limit_turn_def abs_le_iff)

lemma limit_turn_clamp:
  "0 \<le> max_turn_rate s \<Longrightarrow> limit_turn s x = max (- max_turn_rate s) (min (max_turn_rate s) x)"
  by (simp add: limit_turn_def max_def min_def)

lemma accumulate_integral:
  "integral (accumulate s e) =
     (if integral s + e > integral_limit s then integral_limit s
      else if integral s + e < - integral_limit s then - integral_limit s
      else integral s + e)"
  by (simp add: accumulate_def Let_def)

lemma push_history_list:
  "error_history (push_history s e) =
     (if length (error_history s @ [e]) > history_size s then tl (error_history s @ [e])
      else error_history s @ [e])"
  by (simp add: push_history_def Let_def)

lemma detect_oscillation_history:
  "error_history t = h \<Longrightarrow> history_size t = history_size s \<Longrightarrow>
   detect_oscillation t = detect_oscillation (s\<lparr>error_history := h\<rparr>)"
  by (simp add: detect_oscillation_def)

lemma calculate_pid_stored:
  "integral (snd (calculate_pid s v)) =
     (let e = v - target_value s;
          a = integral s + e;
          c = (if a > integral_limit s then integral_limit s
               else if a < - integral_limit s then - integral_limit s else a);
          h = error_history s @ [e];
          h' = (if length h > history_size s then tl h else h)
      in if detect_oscillation (s\<lparr>error_history := h'\<rparr>) then c * (1 / 2) else c)"
proof -
  let ?e = "v - target_value s"
  let ?t = "accumulate (push_history s ?e) ?e"
  have "detect_oscillation ?t
        = detect_oscillation (s\<lparr>error_history :=
            (if length (error_history s @ [?e]) > history_size s then tl (error_history s @ [?e])
             else error_history s @ [?e])\<rparr>)"
    by (rule detect_oscillation_history) (simp_all add: push_history_list)
  then show ?thesis
    unfolding Let_def calculate_pid_integral damp_def
    by (simp add: accumulate_integral)
qed

text \<open>
  C1. For sensor value \<open>v\<close> let \<open>error = v - target_value\<close>. The update stores as
  integral the sum \<open>integral + error\<close> cut to \<open>[-integral_limit, integral_limit]\<close> as
  the code writes it, multiplied by 1/2 when \<^verbatim>\<open>detect_oscillation\<close> is true of the
  history that already holds the new error (the oldest entry dropped when the list
  got longer than \<open>history_size\<close>). The turn rate returned is
  \<open>kp*error + ki*integral + kd*(error - last_error)\<close> with that stored integral and the
  previous \<open>last_error\<close>, limited to \<open>\<plusminus>max_turn_rate\<close> as the code writes it; the new
  \<open>last_error\<close> is \<open>error\<close>. For a non-negative \<open>max_turn_rate\<close> (the constructor sets
  250) the limit is the clamp into \<open>[-max_turn_rate, max_turn_rate]\<close>, and the
  magnitude of the result is at most \<open>max_turn_rate\<close>. Scenario B: sensor value 80,
  target 50, \<open>kp = 2\<close>, \<open>ki = kd = 0\<close>, integral and last error 0 give 60 whenever
  \<open>max_turn_rate \<ge> 60\<close>.
\<close>

theorem C1_turn_rate:
  "(let error = v - target_value s;
        a = integral s + error;
        c = (if a > integral_limit s then integral_limit s
             else if a < - integral_limit s then - integral_limit s else a);
        h = error_history s @ [error];
        h' = (if length h > history_size s then tl h else h);
        i = (if detect_oscillation (s\<lparr>error_history := h'\<rparr>) then c * (1 / 2) else c);
        raw = kp s * error + ki s * i + kd s * (error - last_error s)
    in integral (snd (calculate_pid s v)) = i
       \<and> last_error (snd (calculate_pid s v)) = error
       \<and> fst (calculate_pid s v) =
           (if raw > max_turn_rate s then max_turn_rate s
            else if raw < - max_turn_rate s then - max_turn_rate s else raw)
       \<and> (0 \<le> max_turn_rate s \<longrightarrow>
            fst (calculate_pid s v) = max (- max_turn_rate s) (min (max_turn_rate s) raw)
            \<and> \<bar>fst (calculate_pid s v)\<bar> \<le> max_turn_rate s))
   \<and> (target_value s = 50 \<and> kp s = 2 \<and> ki s = 0 \<and> kd s = 0 \<and> integral s = 0
        \<and> last_error s = 0 \<and> 60 \<le> max_turn_rate s
      \<longrightarrow> fst (calculate_pid s 80) = 60)"
proof -
  have scenario: "fst (calculate_pid s 80) = 60"
    if "target_value s = 50" "kp s = 2" "ki s = 0" "kd s = 0" "60 \<le> max_turn_rate s"
    using that by (simp add: calculate_pid_turn limit_turn_def)
  have turn: "fst (calculate_pid s v) =
     limit_turn s (kp s * (v - target_value s) + ki s * integral (snd (calculate_pid s v))
                   + kd s * ((v - target_value s) - last_error s))"
    by (rule calculate_pid_turn)
  show ?thesis
    using scenario limit_turn_bound [of s] limit_turn_clamp [of s]
    unfolding turn calculate_pid_stored [of s v] Let_def
    by (simp add: limit_turn_def)
qed

text \<open>
  Three inputs. Scenario B. After a calibration with samples 90 and 10, reading 60
  with the constructor's gains: integral 10, turn rate 2*10 + 0.02*10 + 0.8*10 = 28.2.
  The same with integral 95 beforehand: the sum 105 is cut to 100, turn rate 30. And
  the tenth reading of the swinging run: the sum 50 is halved to 25, turn rate
  2*(-10) + 0.02*25 + 0.8*(-30) = -43.5.
\<close>

theorem C1_turn_rate_witness:
  "fst (calculate_pid (LineTracer_init\<lparr>target_value := 50, ki := 0, kd := 0\<rparr>) 80) = 60
   \<and> fst (calculate_pid calibrated 60) = 141 / 5
   \<and> integral (snd (calculate_pid calibrated 60)) = 10
   \<and> fst (calculate_pid (calibrated\<lparr>integral := 95\<rparr>) 60) = 30
   \<and> integral (snd (calculate_pid (calibrated\<lparr>integral := 95\<rparr>) 60)) = 100
   \<and> fst (calculate_pid (updates (LineTracer_init\<lparr>target_value := 50\<rparr>) (butlast zigzag)) 40)
       = - 87 / 2
   \<and> integral (snd (calculate_pid
         (updates (LineTracer_init\<lparr>target_value := 50\<rparr>) (butlast zigzag)) 40)) = 25
   \<and> \<bar>fst (calculate_pid calibrated 60)\<bar> \<le> max_turn_rate calibrated"
proof -
  let ?B = "LineTracer_init\<lparr>target_value := 50, ki := 0, kd := 0\<rparr>"
  let ?Z = "updates (LineTracer_init\<lparr>target_value := 50\<rparr>) (butlast zigzag)"
  have z: "?Z = LineTracer_init\<lparr>target_value := 50,
                  error_history := [20, - 10, 20, - 10, 20, - 10, 20, - 10, 20],
                  integral := 60, last_error := 20\<rparr>"
    by (simp add: zigzag_def LineTracer_init_def calculate_pid_def Let_def push_history_def
        accumulate_def damp_def detect_oscillation_def)
  have b: "fst (calculate_pid ?B 80) = 60"
    using C1_turn_rate [of 80 ?B] by (simp add: LineTracer_init_def Let_def)
  have c: "fst (calculate_pid calibrated 60) = 141 / 5
           \<and> integral (snd (calculate_pid calibrated 60)) = 10
           \<and> \<bar>fst (calculate_pid calibrated 60)\<bar> \<le> max_turn_rate calibrated"
    using C1_turn_rate [of 60 calibrated]
    by (simp add: calibrated_def set_thresholds_def LineTracer_init_def Let_def
        detect_oscillation_def)
  have d: "fst (calculate_pid (calibrated\<lparr>integral := 95\<rparr>) 60) = 30
           \<and> integral (snd (calculate_pid (calibrated\<lparr>integral := 95\<rparr>) 60)) = 100"
    using C1_turn_rate [of 60 "calibrated\<lparr>integral := 95\<rparr>"]
    by (simp add: calibrated_def set_thresholds_def LineTracer_init_def Let_def
        detect_oscillation_def)
  have e: "fst (calculate_pid ?Z 40) = - 87 / 2 \<and> integral (snd (calculate_pid ?Z 40)) = 25"
    using C1_turn_rate [of 40 ?Z] unfolding z
    by (simp add: LineTracer_init_def Let_def detect_oscillation_def sign_changes_Cons)
  show ?thesis
    using b c d e by blast
qed

lemma accumulate_bound:
  "0 \<le> integral_limit s \<Longrightarrow> \<bar>integral (accumulate s e)\<bar> \<le> integral_limit s"
  by (simp add: accumulate_def Let_def abs_le_iff)

lemma damp_bound: "\<bar>integral s\<bar> \<le> L \<Longrightarrow> \<bar>integral (damp s)\<bar> \<le> L"
  using abs_ge_zero [of "integral s"] by (simp add: damp_def abs_mult del: abs_ge_zero)

lemma calculate_pid_bound:
  "0 \<le> integral_limit s \<Longrightarrow> \<bar>integral (snd (calculate_pid s v))\<bar> \<le> integral_limit s"
  using accumulate_bound [of "push_history s (v - target_value s)" "v - target_value s"]
  by (simp add: calculate_pid_integral damp_bound)

lemma updates_integral_limit [simp]: "integral_limit (updates s vs) = integral_limit s"
  by (induction vs arbitrary: s) simp_all

lemma updates_bound:
  "0 \<le> integral_limit s \<Longrightarrow> \<bar>integral s\<bar> \<le> integral_limit s \<Longrightarrow>
   \<bar>integral (updates s vs)\<bar> \<le> integral_limit s"
proof (induction vs arbitrary: s)
  case Nil
  then show ?case by simp
next
  case (Cons v vs)
  have "\<bar>integral (updates (snd (calculate_pid s v)) vs)\<bar> \<le> integral_limit (snd (calculate_pid s v))"
    by (rule Cons.IH) (simp_all add: Cons.prems calculate_pid_bound)
  then show ?case by simp
qed

text \<open>The regulator of Level4_Program.py keeps its integral within the constant limit.\<close>

lemma calculate_pid_control_bound:
  "\<bar>g_integral (snd (calculate_pid_control g v t p i d))\<bar> \<le> 100"
  by (simp add: calculate_pid_control_def Let_def abs_le_iff)

text \<open>
  C2. Start from integral 0 with a non-negative \<open>integral_limit\<close> (the constructor
  sets 100, and nothing changes it). After any finite sequence \<open>vs\<close> of sensor values,
  each fed to \<^verbatim>\<open>calculate_pid\<close>, the magnitude of the integral is at most
  \<open>integral_limit\<close>. Within the next update, for any sensor value \<open>v\<close>, the bound holds
  after the anti-windup step and again after the oscillation halving, whose result is
  the integral that the update stores.
\<close>

theorem C2_integral_bound:
  "integral s = 0 \<and> 0 \<le> integral_limit s \<longrightarrow>
     \<bar>integral (updates s vs)\<bar> \<le> integral_limit s
     \<and> (let s' = updates s vs; e = v - target_value s'
        in \<bar>integral (accumulate (push_history s' e) e)\<bar> \<le> integral_limit s
           \<and> \<bar>integral (damp (accumulate (push_history s' e) e))\<bar> \<le> integral_limit s
           \<and> integral (snd (calculate_pid s' v)) = integral (damp (accumulate (push_history s' e) e)))"
proof (intro impI, elim conjE)
  assume a: "integral s = 0" "0 \<le> integral_limit s"
  have 1: "\<bar>integral (updates s vs)\<bar> \<le> integral_limit s"
    using a by (simp add: updates_bound)
  have 2: "\<bar>integral (accumulate (push_history (updates s vs) e) e)\<bar> \<le> integral_limit s" for e
    using accumulate_bound [of "push_history (updates s vs) e" e] a by simp
  show "\<bar>integral (updates s vs)\<bar> \<le> integral_limit s
     \<and> (let s' = updates s vs; e = v - target_value s'
        in \<bar>integral (accumulate (push_history s' e) e)\<bar> \<le> integral_limit s
           \<and> \<bar>integral (damp (accumulate (push_history s' e) e))\<bar> \<le> integral_limit s
           \<and> integral (snd (calculate_pid s' v)) = integral (damp (accumulate (push_history s' e) e)))"
    unfolding Let_def using 1 2 damp_bound [OF 2] by (simp add: calculate_pid_integral)
qed

text \<open>
  Three readings of 90 against the constructor's target 47.5 add up to 127.5, which
  the limit cuts to 100.
\<close>

theorem C2_integral_bound_witness:
  "integral LineTracer_init = 0 \<and> 0 \<le> integral_limit LineTracer_init
   \<and> integral (updates LineTracer_init [90, 90, 90]) = 100
   \<and> \<bar>integral (updates LineTracer_init [90, 90, 90])\<bar> \<le> integral_limit LineTracer_init"
proof -
  have "integral (updates LineTracer_init [90, 90, 90]) = 100"
    by (simp add: LineTracer_init_def calculate_pid_def Let_def push_history_def
        accumulate_def damp_def detect_oscillation_def)
  then show ?thesis
    using C2_integral_bound [of LineTracer_init "[90, 90, 90]" 0]
    by (simp add: LineTracer_init_def)
qed

lemma sign_changes_alternating: "alternating xs \<Longrightarrow> sign_changes xs = length xs - 1"
  by (induction xs rule: alternating.induct) (simp_all add: sign_changes_Cons)

lemma alternating_tl: "alternating xs \<Longrightarrow> alternating (tl xs)"
  by (induction xs rule: alternating.induct) simp_all

lemma alternating_drop: "alternating xs \<Longrightarrow> alternating (drop n xs)"
proof (induction n arbitrary: xs)
  case 0
  then show ?case by simp
next
  case (Suc n)
  have "drop (Suc n) xs = drop n (tl xs)" by (simp add: drop_Suc)
  with Suc show ?case by (simp add: alternating_tl)
qed

lemma sign_changes_card:
  "sign_changes h = card {i. 1 \<le> i \<and> i < length h \<and> h ! i * h ! (i - 1) < 0}"
proof -
  have "sign_changes h = card ({i. h ! i * h ! (i - 1) < 0} \<inter> set [1 ..< length h])"
    unfolding sign_changes_def by (rule distinct_length_filter) simp
  also have "{i. h ! i * h ! (i - 1) < 0} \<inter> set [1 ..< length h]
             = {i. 1 \<le> i \<and> i < length h \<and> h ! i * h ! (i - 1) < 0}"
    by auto
  finally show ?thesis .
qed

lemma push_history_history:
  assumes "length (error_history s) \<le> history_size s"
  shows "error_history (push_history s e)
     = drop (length (error_history s) + 1 - history_size s) (error_history s @ [e])"
proof (cases "length (error_history s) = history_size s")
  case True
  then have "length (error_history s) + 1 - history_size s = Suc 0" by simp
  then have "drop (length (error_history s) + 1 - history_size s) (error_history s @ [e])
             = tl (error_history s @ [e])"
    by (simp only: drop_Suc drop_0)
  then show ?thesis using True by (simp add: push_history_def Let_def)
next
  case False
  with assms have "length (error_history s) + 1 - history_size s = 0" by simp
  then show ?thesis using False assms by (simp add: push_history_def Let_def)
qed

lemma last_entries_step:
  assumes "length h \<le> n"
  shows "drop (length (drop (length h + 1 - n) (h @ [e]) @ es) - n) (drop (length h + 1 - n) (h @ [e]) @ es)
         = drop (length (h @ e # es) - n) (h @ e # es)"
proof (cases "length h = n")
  case True
  then have k: "length h + 1 - n = Suc 0" by simp
  have "drop (Suc 0) (h @ [e]) @ es = drop (Suc 0) (h @ e # es)"
    by (cases h) simp_all
  moreover have "length (h @ e # es) - Suc 0 - n + Suc 0 = length (h @ e # es) - n"
    using True by simp
  ultimately show ?thesis
    unfolding k by (simp del: drop_append length_append add: add.commute)
next
  case False
  with assms have "length h + 1 - n = 0" by simp
  then show ?thesis by simp
qed

lemma push_history_length:
  "length (error_history s) \<le> history_size s \<Longrightarrow>
   length (error_history (push_history s e)) \<le> history_size s"
  by (simp add: push_history_def Let_def)

lemma updates_fields [simp]:
  "target_value (updates s vs) = target_value s"
  "history_size (updates s vs) = history_size s"
  by (induction vs arbitrary: s) simp_all

lemma updates_history:
  "length (error_history s) \<le> history_size s \<Longrightarrow>
   error_history (updates s vs)
     = (let H = error_history s @ map (\<lambda>v. v - target_value s) vs
        in drop (length H - history_size s) H)"
proof (induction vs arbitrary: s)
  case Nil
  then show ?case by simp
next
  case (Cons v vs)
  let ?e = "v - target_value s"
  let ?s1 = "snd (calculate_pid s v)"
  let ?k = "length (error_history s) + 1 - history_size s"
  let ?es = "map (\<lambda>v. v - target_value s) vs"
  have h1: "error_history ?s1 = drop ?k (error_history s @ [?e])"
    using Cons.prems by (simp add: calculate_pid_history push_history_history)
  have len: "length (error_history ?s1) \<le> history_size ?s1"
    using Cons.prems by (simp add: calculate_pid_history push_history_length)
  have "error_history (updates ?s1 vs)
        = drop (length (error_history ?s1 @ ?es) - history_size s) (error_history ?s1 @ ?es)"
    using Cons.IH [OF len] by (simp add: Let_def)
  also have "\<dots> = drop (length (error_history s @ ?e # ?es) - history_size s) (error_history s @ ?e # ?es)"
    unfolding h1 by (rule last_entries_step) (rule Cons.prems)
  finally show ?case by (simp add: Let_def)
qed

lemma detect_oscillation_cong:
  "error_history s = error_history t \<Longrightarrow> history_size s = history_size t \<Longrightarrow>
   detect_oscillation s = detect_oscillation t"
  by (simp add: detect_oscillation_def)

lemma detect_alternating:
  "history_size s = 10 \<Longrightarrow> 10 \<le> length (error_history s) \<Longrightarrow> alternating (error_history s) \<Longrightarrow>
   detect_oscillation s"
  by (simp add: detect_oscillation_def sign_changes_alternating)


lemma updates_snoc: "updates s (vs @ [v]) = snd (calculate_pid (updates s vs) v)"
  by (induction vs arbitrary: s) simp_all

lemma detect_oscillation_calculate_pid:
  "detect_oscillation (snd (calculate_pid s v))
     = detect_oscillation (accumulate (push_history s (v - target_value s)) (v - target_value s))"
  by (rule detect_oscillation_cong) (simp_all add: calculate_pid_history)

lemma calculate_pid_damped:
  "integral (snd (calculate_pid s v))
     = (let s2 = accumulate (push_history s (v - target_value s)) (v - target_value s)
        in if detect_oscillation s2 then integral s2 * (1 / 2) else integral s2)"
  by (simp add: calculate_pid_integral damp_def Let_def)

lemma updates_alternating:
  assumes hs: "history_size s = 10" and len: "length (error_history s) \<le> 10"
    and vs: "10 \<le> length vs" and alt: "alternating (map (\<lambda>v. v - target_value s) vs)"
  shows "detect_oscillation (updates s vs)"
proof -
  let ?es = "map (\<lambda>v. v - target_value s) vs"
  let ?h = "error_history s"
  have "error_history (updates s vs) = drop (length (?h @ ?es) - 10) (?h @ ?es)"
    using updates_history [of s vs] hs len by (simp add: Let_def)
  also have "\<dots> = drop (length ?es - 10) ?es"
    using vs by simp
  finally have h: "error_history (updates s vs) = drop (length ?es - 10) ?es" .
  have "alternating (error_history (updates s vs))"
    unfolding h by (rule alternating_drop) (rule alt)
  moreover have "length (error_history (updates s vs)) = 10"
    unfolding h using vs by simp
  ultimately show ?thesis
    using hs by (simp add: detect_alternating)
qed

text \<open>
  C3. \<^verbatim>\<open>detect_oscillation\<close> is false while the history holds fewer than
  \<open>history_size\<close> entries. With \<open>history_size = 10\<close> and a history of 10 entries it is
  true exactly when more than 6 of the 9 neighbouring pairs have a negative product.
  In an update, the stored integral is the anti-windup result multiplied by 1/2 when
  the check (made on the history that already holds the new error) is true and the
  anti-windup result itself otherwise, and the turn rate is computed from that stored
  value. Feeding at least 10 sensor values whose errors alternate in sign leaves a
  state on which the check is true, and the last of these updates halved the integral.
\<close>

theorem C3_oscillation:
  "(length (error_history s) < history_size s \<longrightarrow> \<not> detect_oscillation s)
   \<and> (history_size s = 10 \<and> length (error_history s) = 10 \<longrightarrow>
        detect_oscillation s
          = (6 < card {i. 1 \<le> i \<and> i < 10 \<and> error_history s ! i * error_history s ! (i - 1) < 0}))
   \<and> (let e = v - target_value s;
           s2 = accumulate (push_history s e) e;
           i = (if detect_oscillation s2 then integral s2 * (1 / 2) else integral s2)
       in integral (snd (calculate_pid s v)) = i
          \<and> fst (calculate_pid s v) = limit_turn s (kp s * e + ki s * i + kd s * (e - last_error s)))
   \<and> (history_size s = 10 \<and> length (error_history s) \<le> 10 \<and> 10 \<le> length vs
        \<and> alternating (map (\<lambda>x. x - target_value s) vs) \<longrightarrow>
        detect_oscillation (updates s vs)
        \<and> (let s' = updates s (butlast vs); e = last vs - target_value s
           in integral (updates s vs) = integral (accumulate (push_history s' e) e) * (1 / 2)))"
proof (intro conjI impI)
  show "\<not> detect_oscillation s" if "length (error_history s) < history_size s"
    using that by (simp add: detect_oscillation_def)
next
  assume "history_size s = 10 \<and> length (error_history s) = 10"
  then show "detect_oscillation s
          = (6 < card {i. 1 \<le> i \<and> i < 10 \<and> error_history s ! i * error_history s ! (i - 1) < 0})"
    using sign_changes_card [of "error_history s"] by (simp add: detect_oscillation_def)
next
  show "let e = v - target_value s;
           s2 = accumulate (push_history s e) e;
           i = (if detect_oscillation s2 then integral s2 * (1 / 2) else integral s2)
       in integral (snd (calculate_pid s v)) = i
          \<and> fst (calculate_pid s v) = limit_turn s (kp s * e + ki s * i + kd s * (e - last_error s))"
    using calculate_pid_damped [of s v] calculate_pid_turn [of s v] by (simp add: Let_def)
next
  assume a: "history_size s = 10 \<and> length (error_history s) \<le> 10 \<and> 10 \<le> length vs
        \<and> alternating (map (\<lambda>x. x - target_value s) vs)"
  then show "detect_oscillation (updates s vs)"
    by (simp add: updates_alternating)
next
  assume a: "history_size s = 10 \<and> length (error_history s) \<le> 10 \<and> 10 \<le> length vs
        \<and> alternating (map (\<lambda>x. x - target_value s) vs)"
  then have osc: "detect_oscillation (updates s vs)"
    by (simp add: updates_alternating)
  from a have "vs \<noteq> []" by auto
  then have split: "updates s vs = snd (calculate_pid (updates s (butlast vs)) (last vs))"
    using updates_snoc [of s "butlast vs" "last vs"] by simp
  show "let s' = updates s (butlast vs); e = last vs - target_value s
           in integral (updates s vs) = integral (accumulate (push_history s' e) e) * (1 / 2)"
    using osc unfolding split
    by (simp add: detect_oscillation_calculate_pid calculate_pid_damped Let_def)
qed

text \<open>Errors 20, -10, 20, -10, ...: the tenth update finds 9 sign changes and halves 50 to 25.\<close>

lemma updates_zigzag_9:
  "integral (updates (LineTracer_init\<lparr>target_value := 50\<rparr>) (butlast zigzag)) = 60"
  by (simp add: zigzag_def LineTracer_init_def calculate_pid_def Let_def push_history_def
      accumulate_def damp_def detect_oscillation_def)

theorem C3_oscillation_witness:
  "(let s = LineTracer_init\<lparr>target_value := 50\<rparr>
    in history_size s = 10 \<and> length (error_history s) \<le> 10 \<and> 10 \<le> length zigzag
       \<and> alternating (map (\<lambda>x. x - target_value s) zigzag)
       \<and> length (error_history s) < history_size s \<and> \<not> detect_oscillation s
       \<and> detect_oscillation (updates s zigzag)
       \<and> integral (updates s zigzag) = 25)"
proof -
  let ?s = "LineTracer_init\<lparr>target_value := 50\<rparr>"
  have alt: "alternating (map (\<lambda>x. x - target_value ?s) zigzag)"
    by (simp add: zigzag_def)
  have cfg: "history_size ?s = 10" "error_history ?s = []" "target_value ?s = 50"
    by (simp_all add: LineTracer_init_def)
  have len: "length zigzag = 10" "last zigzag = 40"
    by (simp_all add: zigzag_def)
  have i10: "integral (accumulate (push_history (updates ?s (butlast zigzag)) (- 10)) (- 10)) = 50"
    using updates_zigzag_9 by (simp add: accumulate_def Let_def LineTracer_init_def)
  show ?thesis
    using C3_oscillation [of ?s "60" zigzag] alt cfg len i10
    by (simp add: Let_def)
qed

lemma set_thresholds_fields [simp]:
  "black_threshold (set_thresholds s wv bv) = bv + 5"
  "white_threshold (set_thresholds s wv bv) = wv - 5"
  "target_value (set_thresholds s wv bv) = (bv + 5 + (wv - 5)) / 2"
  "gray_zone (set_thresholds s wv bv) = Some ((wv - 5 - (bv + 5)) * (3 / 10))"
  "is_calibrated (set_thresholds s wv bv) = True"
  "kp (set_thresholds s wv bv) = kp s"
  "ki (set_thresholds s wv bv) = ki s"
  "kd (set_thresholds s wv bv) = kd s"
  "integral (set_thresholds s wv bv) = integral s"
  "last_error (set_thresholds s wv bv) = last_error s"
  "integral_limit (set_thresholds s wv bv) = integral_limit s"
  "base_speed (set_thresholds s wv bv) = base_speed s"
  "max_turn_rate (set_thresholds s wv bv) = max_turn_rate s"
  "error_history (set_thresholds s wv bv) = error_history s"
  "history_size (set_thresholds s wv bv) = history_size s"
  "line_position (set_thresholds s wv bv) = line_position s"
  by (simp_all add: set_thresholds_def Let_def)

lemma calibrate_Some:
  "calibrate s bs w = Some (s', bs', w') \<Longrightarrow> \<exists>wv bv. s' = set_thresholds s wv bv"
  by (auto simp: calibrate_def split: option.splits prod.splits)

text \<open>
  Samples 40 (black) and 50 (white), confirmed at the first poll each: the three values
  of the profile coincide at 45, so the black threshold is not below the target.
\<close>

theorem C4_counterexample:
  "map_option fst (calibrate LineTracer_init [True, True] (readings [50, 40] 0))
     = Some (set_thresholds LineTracer_init 50 40)
   \<and> (40 :: rat) < 50
   \<and> black_threshold (set_thresholds LineTracer_init 50 40) = 45
   \<and> target_value (set_thresholds LineTracer_init 50 40) = 45
   \<and> white_threshold (set_thresholds LineTracer_init 50 40) = 45
   \<and> \<not> (black_threshold (set_thresholds LineTracer_init 50 40)
          < target_value (set_thresholds LineTracer_init 50 40))"
  by (simp add: calibrate_def readings_def reflection_def)

text \<open>
  C4 (amended). \<^verbatim>\<open>calibrate\<close> sets \<open>black_threshold = black + 5\<close>,
  \<open>white_threshold = white - 5\<close> and the target to their midpoint. If
  \<open>black + 10 < white\<close> then \<open>black_threshold < target_value < white_threshold\<close>;
  and either of these two inequalities holds only if \<open>black + 10 < white\<close>.
\<close>

theorem C4_calibration_order:
  "(let s' = set_thresholds s white_value black_value
    in black_threshold s' = black_value + 5
       \<and> white_threshold s' = white_value - 5
       \<and> target_value s' = (black_threshold s' + white_threshold s') / 2
       \<and> (black_value + 10 < white_value \<longrightarrow>
            black_threshold s' < target_value s' \<and> target_value s' < white_threshold s')
       \<and> (black_threshold s' < target_value s' \<or> target_value s' < white_threshold s' \<longrightarrow>
            black_value + 10 < white_value))"
  by (simp add: Let_def)

theorem C4_calibration_order_witness:
  "(10 :: rat) + 10 < 90
   \<and> black_threshold (set_thresholds LineTracer_init 90 10) = 15
   \<and> target_value (set_thresholds LineTracer_init 90 10) = 50
   \<and> white_threshold (set_thresholds LineTracer_init 90 10) = 85
   \<and> black_threshold (set_thresholds LineTracer_init 90 10)
       < target_value (set_thresholds LineTracer_init 90 10)
   \<and> target_value (set_thresholds LineTracer_init 90 10)
       < white_threshold (set_thresholds LineTracer_init 90 10)"
  using C4_calibration_order [of LineTracer_init 90 10]
  by (simp add: Let_def)

text \<open>
  C5. \<^verbatim>\<open>detect_sharp_curve\<close> with margin 10, its cases taken in order: sharp left
  when \<open>v < black_threshold + 10\<close>; otherwise sharp right when
  \<open>v > white_threshold - 10\<close>; otherwise none. When the two bounds do not cross
  (\<open>black_threshold + 10 \<le> white_threshold - 10\<close>) every \<open>v > white_threshold - 10\<close>
  is sharp right. The result depends on the object through the two thresholds only.
\<close>

theorem C5_classifier:
  "(v < black_threshold s + 10 \<longrightarrow> detect_sharp_curve s v = Some sharp_left)
   \<and> (\<not> v < black_threshold s + 10 \<and> v > white_threshold s - 10 \<longrightarrow>
        detect_sharp_curve s v = Some sharp_right)
   \<and> (\<not> v < black_threshold s + 10 \<and> \<not> v > white_threshold s - 10 \<longrightarrow>
        detect_sharp_curve s v = None)
   \<and> (black_threshold s + 10 \<le> white_threshold s - 10 \<and> v > white_threshold s - 10 \<longrightarrow>
        detect_sharp_curve s v = Some sharp_right)
   \<and> (black_threshold t = black_threshold s \<and> white_threshold t = white_threshold s \<longrightarrow>
        detect_sharp_curve t v = detect_sharp_curve s v)"
  by (simp add: detect_sharp_curve_def)

theorem C5_classifier_witness:
  "detect_sharp_curve LineTracer_init 15 = Some sharp_left
   \<and> detect_sharp_curve LineTracer_init 80 = Some sharp_right
   \<and> detect_sharp_curve LineTracer_init 50 = None
   \<and> detect_sharp_curve (snd (calculate_pid LineTracer_init 50)) 80
       = detect_sharp_curve LineTracer_init 80"
  using C5_classifier [of 15 LineTracer_init LineTracer_init]
    C5_classifier [of 80 LineTracer_init "snd (calculate_pid LineTracer_init 50)"]
    C5_classifier [of 50 LineTracer_init LineTracer_init]
  by (simp add: LineTracer_init_def)

lemma steer_pid:
  assumes "detect_sharp_curve s v = None" "max_turn_rate s \<noteq> 0" "gray_zone s = Some gz"
  shows "steer s v w =
     Inr ((snd (calculate_pid s v))\<lparr>line_position :=
             (if \<bar>v - target_value s\<bar> < gz then 0 else if v < target_value s then - 1 else 1)\<rparr>,
          robot_drive (base_speed s * (1 - (\<bar>fst (calculate_pid s v)\<bar> / max_turn_rate s) * (4 / 10)))
            (fst (calculate_pid s v)) w)"
  using assms by (simp add: steer_def Let_def case_prod_beta)

lemma speed_factor_bounds:
  fixes r b :: rat
  assumes "0 \<le> r" "r \<le> 1" "0 \<le> b"
  shows "(6 / 10) * b \<le> b * (1 - r * (4 / 10))" "b * (1 - r * (4 / 10)) \<le> b"
proof -
  have "6 / 10 \<le> 1 - r * (4 / 10)" "1 - r * (4 / 10) \<le> 1"
    using assms by simp_all
  then have "b * (6 / 10) \<le> b * (1 - r * (4 / 10))" "b * (1 - r * (4 / 10)) \<le> b * 1"
    using assms(3) by (simp_all only: mult_left_mono)
  then show "(6 / 10) * b \<le> b * (1 - r * (4 / 10))" "b * (1 - r * (4 / 10)) \<le> b"
    by (simp_all add: mult.commute)
qed

text \<open>
  C9. On a round that is not a sharp curve, with a positive \<open>max_turn_rate\<close>, a
  non-negative \<open>base_speed\<close> (the constructor sets 250 and 150) and the gray zone set,
  the drive command carries the regulator's turn rate and the speed
  \<open>base_speed * (1 - (|turn_rate| / max_turn_rate) * 0.4)\<close>; the turn rate is within
  \<open>\<plusminus>max_turn_rate\<close> and the speed within \<open>[0.6 * base_speed, base_speed]\<close>.
\<close>

theorem C9_speed:
  "detect_sharp_curve s v = None \<and> 0 < max_turn_rate s \<and> 0 \<le> base_speed s
   \<and> gray_zone s = Some gz \<longrightarrow>
   (let turn_rate = fst (calculate_pid s v);
        speed = base_speed s * (1 - (\<bar>turn_rate\<bar> / max_turn_rate s) * (4 / 10))
    in map_sum id snd (steer s v w) = Inr (robot_drive speed turn_rate w)
       \<and> \<bar>turn_rate\<bar> \<le> max_turn_rate s
       \<and> (6 / 10) * base_speed s \<le> speed \<and> speed \<le> base_speed s)"
proof (intro impI, elim conjE)
  assume a: "detect_sharp_curve s v = None" "0 < max_turn_rate s" "0 \<le> base_speed s"
    "gray_zone s = Some gz"
  let ?t = "fst (calculate_pid s v)"
  have t: "\<bar>?t\<bar> \<le> max_turn_rate s"
    using a(2) limit_turn_bound [of s] by (simp add: calculate_pid_turn)
  then have r: "0 \<le> \<bar>?t\<bar> / max_turn_rate s" "\<bar>?t\<bar> / max_turn_rate s \<le> 1"
    using a(2) by simp_all
  show "let turn_rate = fst (calculate_pid s v);
        speed = base_speed s * (1 - (\<bar>turn_rate\<bar> / max_turn_rate s) * (4 / 10))
    in map_sum id snd (steer s v w) = Inr (robot_drive speed turn_rate w)
       \<and> \<bar>turn_rate\<bar> \<le> max_turn_rate s
       \<and> (6 / 10) * base_speed s \<le> speed \<and> speed \<le> base_speed s"
    unfolding Let_def
    using steer_pid [of s v gz w] a t speed_factor_bounds [OF r a(3)] by simp
qed


text \<open>Reading 60 against target 50: turn rate 28.2, speed 143.232.\<close>

theorem C9_speed_witness:
  "detect_sharp_curve calibrated 60 = None \<and> 0 < max_turn_rate calibrated
   \<and> 0 \<le> base_speed calibrated \<and> gray_zone calibrated = Some 21
   \<and> fst (calculate_pid calibrated 60) = 141 / 5
   \<and> map_sum id snd (steer calibrated 60 (readings [] 0))
       = Inr (robot_drive (17904 / 125) (141 / 5) (readings [] 0))
   \<and> (6 / 10) * base_speed calibrated \<le> 17904 / 125 \<and> 17904 / 125 \<le> base_speed calibrated"
proof -
  have cfg: "detect_sharp_curve calibrated 60 = None" "max_turn_rate calibrated = 250"
    "base_speed calibrated = 150" "gray_zone calibrated = Some 21"
    by (simp_all add: calibrated_def detect_sharp_curve_def LineTracer_init_def)
  have t: "fst (calculate_pid calibrated 60) = 141 / 5"
    by (simp add: calculate_pid_turn calculate_pid_damped limit_turn_def Let_def
        accumulate_def push_history_def detect_oscillation_def calibrated_def LineTracer_init_def)
  show ?thesis
    using C9_speed [of calibrated 60 21 "readings [] 0"] cfg t
    by (simp add: Let_def)
qed

section \<open>Devices, search and loop: properties\<close>

lemma reflection_simps [simp]:
  "fst (reflection w) = sensor w (reads w)"
  "sensor (snd (reflection w)) = sensor w"
  "reads (snd (reflection w)) = Suc (reads w)"
  "trace (snd (reflection w)) = trace w @ [Reflection (sensor w (reads w))]"
  by (simp_all add: reflection_def)

lemma robot_simps [simp]:
  "sensor (robot_turn a w) = sensor w" "reads (robot_turn a w) = reads w"
  "trace (robot_turn a w) = trace w @ [Turn a]"
  "sensor (robot_drive x y w) = sensor w" "reads (robot_drive x y w) = reads w"
  "trace (robot_drive x y w) = trace w @ [Drive x y]"
  "sensor (robot_stop w) = sensor w" "reads (robot_stop w) = reads w"
  "trace (robot_stop w) = trace w @ [Stop]"
  by (simp_all add: robot_turn_def robot_drive_def robot_stop_def)

lemma world_eqI:
  "sensor w = sensor w' \<Longrightarrow> reads w = reads w' \<Longrightarrow> trace w = trace w' \<Longrightarrow>
   world.more w = world.more w' \<Longrightarrow> w = w'"
  by simp

lemma search_loop_step:
  "search_loop (a # as) s w =
     (if sensor w (reads w) < target_value s
      then (True, s\<lparr>line_position := (if a > 0 then - 1 else 1)\<rparr>, snd (reflection (robot_turn a w)))
      else search_loop as s (snd (reflection (robot_turn a w))))"
  by (simp add: Let_def case_prod_beta)

lemma search_loop_fail:
  "(\<forall>i<length as. target_value s \<le> sensor w (reads w + i)) \<Longrightarrow>
   search_loop as s w
     = (False, s, w\<lparr>reads := reads w + length as,
                      trace := trace w @ sweep_events as (sensor w) (reads w)\<rparr>)"
proof (induction as arbitrary: w)
  case Nil
  then show ?case by simp
next
  case (Cons a as)
  let ?w2 = "snd (reflection (robot_turn a w))"
  from Cons.prems have first: "target_value s \<le> sensor w (reads w)"
    by (metis add.right_neutral length_greater_0_conv list.distinct(1))
  have rest: "\<forall>i<length as. target_value s \<le> sensor ?w2 (reads ?w2 + i)"
  proof (intro allI impI)
    fix i assume "i < length as"
    then have "Suc i < length (a # as)" by simp
    with Cons.prems have "target_value s \<le> sensor w (reads w + Suc i)" by blast
    then show "target_value s \<le> sensor ?w2 (reads ?w2 + i)" by simp
  qed
  have "search_loop (a # as) s w = search_loop as s ?w2"
    using first by (simp only: search_loop_step) simp
  also have "\<dots> = (False, s, ?w2\<lparr>reads := reads ?w2 + length as,
                      trace := trace ?w2 @ sweep_events as (sensor ?w2) (reads ?w2)\<rparr>)"
    by (rule Cons.IH [OF rest])
  also have "?w2\<lparr>reads := reads ?w2 + length as,
                      trace := trace ?w2 @ sweep_events as (sensor ?w2) (reads ?w2)\<rparr>
             = w\<lparr>reads := reads w + length (a # as),
                      trace := trace w @ sweep_events (a # as) (sensor w) (reads w)\<rparr>"
    by (simp add: reflection_def robot_turn_def)
  finally show ?case .
qed

lemma length_search_pattern [simp]: "length (search_pattern s) = 6"
  by (simp add: search_pattern_def)

lemma search_line_fail:
  assumes "\<forall>i<6. target_value s \<le> sensor w (reads w + i)"
  shows "search_line s w
     = (False, s, w\<lparr>reads := reads w + 6,
                      trace := trace w @ sweep_events (search_pattern s) (sensor w) (reads w) @ [Stop]\<rparr>)"
  using search_loop_fail [of "search_pattern s" s w] assms
  by (simp add: search_line_def robot_stop_def)

lemma turns_append [simp]: "turns (xs @ ys) = turns xs @ turns ys"
  by (induction xs rule: turns.induct) simp_all

lemma steer_sharp:
  "detect_sharp_curve s v = Some c \<Longrightarrow>
   steer s v w =
     Inr (s\<lparr>line_position := (case c of sharp_left \<Rightarrow> - 1 | sharp_right \<Rightarrow> 1)\<rparr>,
          robot_drive (base_speed s * (1 / 2))
            ((case c of sharp_left \<Rightarrow> - max_turn_rate s | sharp_right \<Rightarrow> max_turn_rate s) * (8 / 10)) w)"
  by (cases c) (simp_all add: steer_def)

lemma lost_is_sharp:
  "white_threshold s + 5 < v \<Longrightarrow> \<exists>c. detect_sharp_curve s v = Some c"
  by (simp add: detect_sharp_curve_def)

lemma lost_line_check_seen:
  "\<not> white_threshold s + 5 < v \<Longrightarrow> lost_line_check s lost v w = Inr (s, 0, w)"
  by (simp add: lost_line_check_def)

lemma lost_line_check_count:
  "white_threshold s + 5 < v \<Longrightarrow> lost < 5 \<Longrightarrow>
   lost_line_check s lost v w = Inr (s, Suc lost, w)"
  by (simp add: lost_line_check_def Let_def)

lemma lost_line_check_search:
  "white_threshold s + 5 < v \<Longrightarrow> 5 \<le> lost \<Longrightarrow>
   lost_line_check s lost v w =
     (case search_line s w of
        (False, s1, w1) \<Rightarrow> Inl (s1, w1)
      | (True, s1, w1) \<Rightarrow> Inr (s1, 0, w1))"
  by (simp add: lost_line_check_def Let_def)

lemma follow_loop_round:
  "follow_loop (False # bs) s lost w =
     (case lost_line_check s lost (sensor w (reads w)) (snd (reflection w)) of
        Inl (s2, w2) \<Rightarrow> Exited line_lost s2 w2
      | Inr (s2, lost2, w2) \<Rightarrow>
          (case steer s2 (sensor w (reads w)) w2 of
             Inl e \<Rightarrow> Raised e
           | Inr (s3, w3) \<Rightarrow> follow_loop bs s3 lost2 w3))"
  by (simp add: case_prod_beta split: sum.split)

lemma follow_loop_append:
  "follow_loop (bs1 @ bs2) s lost w =
     (case follow_loop bs1 s lost w of
        Running s' lost' w' \<Rightarrow> follow_loop bs2 s' lost' w'
      | other \<Rightarrow> other)"
proof (induction bs1 arbitrary: s lost w)
  case Nil
  then show ?case by simp
next
  case (Cons b bs1)
  show ?case
  proof (cases b)
    case True
    then show ?thesis by simp
  next
    case False
    then show ?thesis
      by (simp only: append_Cons follow_loop_round)
        (simp add: Cons.IH split: sum.splits prod.splits)
  qed
qed

lemma follow_loop_lost_round:
  assumes "white_threshold s + 5 < sensor w (reads w)" "lost < 5"
  shows "\<exists>p x y. follow_loop (False # bs) s lost w
           = follow_loop bs (s\<lparr>line_position := p\<rparr>) (Suc lost)
               (robot_drive x y (snd (reflection w)))"
proof -
  obtain c where c: "detect_sharp_curve s (sensor w (reads w)) = Some c"
    using lost_is_sharp [OF assms(1)] by blast
  have "follow_loop (False # bs) s lost w
          = (case steer s (sensor w (reads w)) (snd (reflection w)) of
               Inl e \<Rightarrow> Raised e
             | Inr (s3, w3) \<Rightarrow> follow_loop bs s3 (Suc lost) w3)"
    using assms by (simp only: follow_loop_round lost_line_check_count sum.case prod.case)
  then show ?thesis
    unfolding steer_sharp [OF c] by (simp only: sum.case prod.case) blast
qed

lemma follow_loop_lost_run:
  "(\<forall>i<n. white_threshold s + 5 < sensor w (reads w + i)) \<Longrightarrow> lost + n \<le> 5 \<Longrightarrow>
   \<exists>s' w'. follow_loop (replicate n False) s lost w = Running s' (lost + n) w'
      \<and> (\<exists>p. s' = s\<lparr>line_position := p\<rparr>)
      \<and> sensor w' = sensor w \<and> reads w' = reads w + n
      \<and> turns (trace w') = turns (trace w)
      \<and> length (trace w') = length (trace w) + 2 * n"
proof (induction n arbitrary: s lost w)
  case 0
  have "\<exists>p. s = s\<lparr>line_position := p\<rparr>"
    by (rule exI [of _ "line_position s"]) simp
  then show ?case by simp
next
  case (Suc n)
  have first: "white_threshold s + 5 < sensor w (reads w)"
    using Suc.prems(1) [rule_format, of 0] by simp
  from Suc.prems have l: "lost < 5" by simp
  obtain p x y where step: "follow_loop (False # replicate n False) s lost w
           = follow_loop (replicate n False) (s\<lparr>line_position := p\<rparr>) (Suc lost)
               (robot_drive x y (snd (reflection w)))"
    using follow_loop_lost_round [OF first l] by blast
  let ?s1 = "s\<lparr>line_position := p\<rparr>" and ?w1 = "robot_drive x y (snd (reflection w))"
  have rest: "\<forall>i<n. white_threshold ?s1 + 5 < sensor ?w1 (reads ?w1 + i)"
  proof (intro allI impI)
    fix i assume "i < n"
    then have "white_threshold s + 5 < sensor w (reads w + Suc i)"
      using Suc.prems(1) [rule_format, of "Suc i"] by simp
    then show "white_threshold ?s1 + 5 < sensor ?w1 (reads ?w1 + i)" by simp
  qed
  from Suc.prems have l2: "Suc lost + n \<le> 5" by simp
  obtain s' w' where r: "follow_loop (replicate n False) ?s1 (Suc lost) ?w1 = Running s' (Suc lost + n) w'"
      "\<exists>q. s' = ?s1\<lparr>line_position := q\<rparr>"
      "sensor w' = sensor ?w1" "reads w' = reads ?w1 + n"
      "turns (trace w') = turns (trace ?w1)"
      "length (trace w') = length (trace ?w1) + 2 * n"
    using Suc.IH [OF rest l2] by blast
  from r(2) obtain q where "s' = s\<lparr>line_position := q\<rparr>" by auto
  then have "\<exists>q. s' = s\<lparr>line_position := q\<rparr>" by blast
  then show ?case
    using step r by simp
qed

lemma lost_line_check_bound:
  "lost \<le> 5 \<Longrightarrow> lost_line_check s lost v w = Inr (s2, lost2, w2) \<Longrightarrow> lost2 \<le> 5"
  by (auto simp: lost_line_check_def Let_def split: if_splits prod.splits bool.splits)

lemma follow_loop_count_bound:
  "lost \<le> 5 \<Longrightarrow> follow_loop bs s lost w = Running s' lost' w' \<Longrightarrow> lost' \<le> 5"
proof (induction bs arbitrary: s lost w)
  case Nil
  then show ?case by simp
next
  case (Cons b bs)
  show ?case
  proof (cases b)
    case True
    with Cons.prems show ?thesis by simp
  next
    case False
    with Cons.prems(2) have r: "(case lost_line_check s lost (sensor w (reads w)) (snd (reflection w)) of
        Inl (s2, w2) \<Rightarrow> Exited line_lost s2 w2
      | Inr (s2, lost2, w2) \<Rightarrow>
          (case steer s2 (sensor w (reads w)) w2 of
             Inl e \<Rightarrow> Raised e
           | Inr (s3, w3) \<Rightarrow> follow_loop bs s3 lost2 w3)) = Running s' lost' w'"
      by (simp only: follow_loop_round)
    then obtain s2 lost2 w2 s3 w3 where
      c: "lost_line_check s lost (sensor w (reads w)) (snd (reflection w)) = Inr (s2, lost2, w2)"
      and "follow_loop bs s3 lost2 w3 = Running s' lost' w'"
      by (auto split: sum.splits prod.splits)
    moreover have "lost2 \<le> 5"
      using lost_line_check_bound [OF Cons.prems(1) c] .
    ultimately show ?thesis
      using Cons.IH by blast
  qed
qed

lemma steer_effect:
  assumes "steer s v w = Inr (s3, w3)"
  shows "white_threshold s3 = white_threshold s \<and> sensor w3 = sensor w \<and> reads w3 = reads w
         \<and> turns (trace w3) = turns (trace w)"
proof (cases "detect_sharp_curve s v")
  case None
  with assms show ?thesis
    by (auto simp: steer_def Let_def case_prod_beta split: if_splits option.splits)
next
  case (Some c)
  from assms show ?thesis unfolding steer_sharp [OF Some] by auto
qed

lemma follow_loop_seen_round:
  "\<not> white_threshold s + 5 < sensor w (reads w) \<Longrightarrow>
   follow_loop (False # bs) s lost w =
     (case steer s (sensor w (reads w)) (snd (reflection w)) of
        Inl e \<Rightarrow> Raised e
      | Inr (s3, w3) \<Rightarrow> follow_loop bs s3 0 w3)"
  by (simp add: follow_loop_round lost_line_check_seen del: follow_loop.simps)

lemma follow_loop_count_round:
  "white_threshold s + 5 < sensor w (reads w) \<Longrightarrow> lost < 5 \<Longrightarrow>
   follow_loop (False # bs) s lost w =
     (case steer s (sensor w (reads w)) (snd (reflection w)) of
        Inl e \<Rightarrow> Raised e
      | Inr (s3, w3) \<Rightarrow> follow_loop bs s3 (Suc lost) w3)"
  by (simp only: follow_loop_round lost_line_check_count sum.case prod.case)

lemma follow_loop_search_round:
  "white_threshold s + 5 < sensor w (reads w) \<Longrightarrow> 5 \<le> lost \<Longrightarrow>
   follow_loop (False # bs) s lost w =
     (case search_line s (snd (reflection w)) of
        (False, s7, w7) \<Rightarrow> Exited line_lost s7 w7
      | (True, s7, w7) \<Rightarrow>
          (case steer s7 (sensor w (reads w)) w7 of
             Inl e \<Rightarrow> Raised e
           | Inr (s8, w8) \<Rightarrow> follow_loop bs s8 0 w8))"
  by (simp only: follow_loop_round lost_line_check_search) (simp split: prod.splits bool.splits)

lemma follow_loop_seen_then_lost:
  assumes seen: "\<not> white_threshold s + 5 < sensor w (reads w)"
    and st: "steer s (sensor w (reads w)) (snd (reflection w)) = Inr (s3, w3)"
    and lost: "\<forall>i<n. white_threshold s + 5 < sensor w (Suc (reads w) + i)" and n: "n \<le> 5"
  shows "\<exists>s' w'. follow_loop (False # replicate n False) s c w = Running s' n w'
           \<and> reads w' = reads w + Suc n \<and> turns (trace w') = turns (trace w)"
proof -
  have e: "white_threshold s3 = white_threshold s" "sensor w3 = sensor w"
    "reads w3 = Suc (reads w)" "turns (trace w3) = turns (trace w)"
    using steer_effect [OF st] by simp_all
  have "follow_loop (False # replicate n False) s c w = follow_loop (replicate n False) s3 0 w3"
    using st by (simp only: follow_loop_seen_round [OF seen] sum.case prod.case)
  moreover have "\<forall>i<n. white_threshold s3 + 5 < sensor w3 (reads w3 + i)"
    using lost e by simp
  then have "\<exists>s' w'. follow_loop (replicate n False) s3 0 w3 = Running s' (0 + n) w'
      \<and> (\<exists>p. s' = s3\<lparr>line_position := p\<rparr>)
      \<and> sensor w' = sensor w3 \<and> reads w' = reads w3 + n
      \<and> turns (trace w') = turns (trace w3)
      \<and> length (trace w') = length (trace w3) + 2 * n"
    using n by (intro follow_loop_lost_run) simp_all
  ultimately show ?thesis
    using e by auto
qed

text \<open>
  C7. In a round of the loop with counter \<open>lost\<close> and reading \<open>v\<close>: if \<open>v\<close> does not
  exceed \<open>white_threshold + 5\<close> the counter becomes 0 and no search is made; if it does,
  the counter is incremented, and while the incremented value is at most 5 no search is
  made; when it exceeds 5, \<^verbatim>\<open>search_line\<close> is called, a found line resets the counter
  to 0 and a failure leaves the loop. At the head of a round the counter never exceeds
  5. Over consecutive rounds with lost readings, starting from counter \<open>lost\<close> with
  \<open>lost + n \<le> 5\<close>, the loop counts to \<open>lost + n\<close>, samples once per round and issues no
  turn command (only \<^verbatim>\<open>search_line\<close> turns). Starting from 0, six lost readings in a
  row make the sixth round the one that calls \<^verbatim>\<open>search_line\<close>.

  The same of the loop itself, round by round: a round whose reading is seen goes on
  with counter 0 whatever the counter was, and without a search; a round whose reading
  is lost goes on with the counter plus one while that was below 5, without a search;
  and with the counter at 5 or more it calls \<^verbatim>\<open>search_line\<close>. Hence after a round
  that saw the line, whatever the counter was before, up to five lost rounds in a row
  end with the counter at their number and no turn command: no search is made while
  one of the five rounds before saw the line.
\<close>

theorem C7_lost_line_count:
  "(\<not> white_threshold s + 5 < v \<longrightarrow> lost_line_check s lost v w = Inr (s, 0, w))
   \<and> (white_threshold s + 5 < v \<and> lost + 1 \<le> 5 \<longrightarrow>
        lost_line_check s lost v w = Inr (s, lost + 1, w))
   \<and> (white_threshold s + 5 < v \<and> 5 < lost + 1 \<longrightarrow>
        lost_line_check s lost v w =
          (case search_line s w of
             (False, s1, w1) \<Rightarrow> Inl (s1, w1)
           | (True, s1, w1) \<Rightarrow> Inr (s1, 0, w1)))
   \<and> (lost \<le> 5 \<and> follow_loop bs s lost w = Running s' lost' w' \<longrightarrow> lost' \<le> 5)
   \<and> ((\<forall>i<n. white_threshold s + 5 < sensor w (reads w + i)) \<and> lost + n \<le> 5 \<longrightarrow>
        (\<exists>s5 w5. follow_loop (replicate n False) s lost w = Running s5 (lost + n) w5
           \<and> reads w5 = reads w + n \<and> turns (trace w5) = turns (trace w)))
   \<and> ((\<forall>i<6. white_threshold s + 5 < sensor w (reads w + i)) \<longrightarrow>
        (\<exists>s5 w5. follow_loop (replicate 5 False) s 0 w = Running s5 5 w5
           \<and> turns (trace w5) = turns (trace w)
           \<and> follow_loop (replicate 5 False @ False # bs) s 0 w =
               (case search_line s5 (snd (reflection w5)) of
                  (False, s7, w7) \<Rightarrow> Exited line_lost s7 w7
                | (True, s7, w7) \<Rightarrow>
                    (case steer s7 (sensor w (reads w + 5)) w7 of
                       Inl e \<Rightarrow> Raised e
                     | Inr (s8, w8) \<Rightarrow> follow_loop bs s8 0 w8))))
   \<and> (\<not> white_threshold s + 5 < sensor w (reads w) \<longrightarrow>
        follow_loop (False # bs) s lost w =
          (case steer s (sensor w (reads w)) (snd (reflection w)) of
             Inl e \<Rightarrow> Raised e
           | Inr (s3, w3) \<Rightarrow> follow_loop bs s3 0 w3))
   \<and> (white_threshold s + 5 < sensor w (reads w) \<and> lost < 5 \<longrightarrow>
        follow_loop (False # bs) s lost w =
          (case steer s (sensor w (reads w)) (snd (reflection w)) of
             Inl e \<Rightarrow> Raised e
           | Inr (s3, w3) \<Rightarrow> follow_loop bs s3 (Suc lost) w3))
   \<and> (white_threshold s + 5 < sensor w (reads w) \<and> 5 \<le> lost \<longrightarrow>
        follow_loop (False # bs) s lost w =
          (case search_line s (snd (reflection w)) of
             (False, s7, w7) \<Rightarrow> Exited line_lost s7 w7
           | (True, s7, w7) \<Rightarrow>
               (case steer s7 (sensor w (reads w)) w7 of
                  Inl e \<Rightarrow> Raised e
                | Inr (s8, w8) \<Rightarrow> follow_loop bs s8 0 w8)))
   \<and> (\<not> white_threshold s + 5 < sensor w (reads w)
        \<and> steer s (sensor w (reads w)) (snd (reflection w)) = Inr (t, u)
        \<and> (\<forall>i<n. white_threshold s + 5 < sensor w (Suc (reads w) + i)) \<and> n \<le> 5 \<longrightarrow>
        (\<exists>s6 w6. follow_loop (False # replicate n False) s lost w = Running s6 n w6
           \<and> reads w6 = reads w + Suc n \<and> turns (trace w6) = turns (trace w)))"
proof (intro conjI impI)
  assume "\<not> white_threshold s + 5 < sensor w (reads w)"
  then show "follow_loop (False # bs) s lost w =
          (case steer s (sensor w (reads w)) (snd (reflection w)) of
             Inl e \<Rightarrow> Raised e
           | Inr (s3, w3) \<Rightarrow> follow_loop bs s3 0 w3)"
    by (rule follow_loop_seen_round)
next
  assume "white_threshold s + 5 < sensor w (reads w) \<and> lost < 5"
  then show "follow_loop (False # bs) s lost w =
          (case steer s (sensor w (reads w)) (snd (reflection w)) of
             Inl e \<Rightarrow> Raised e
           | Inr (s3, w3) \<Rightarrow> follow_loop bs s3 (Suc lost) w3)"
    using follow_loop_count_round by blast
next
  assume "white_threshold s + 5 < sensor w (reads w) \<and> 5 \<le> lost"
  then show "follow_loop (False # bs) s lost w =
          (case search_line s (snd (reflection w)) of
             (False, s7, w7) \<Rightarrow> Exited line_lost s7 w7
           | (True, s7, w7) \<Rightarrow>
               (case steer s7 (sensor w (reads w)) w7 of
                  Inl e \<Rightarrow> Raised e
                | Inr (s8, w8) \<Rightarrow> follow_loop bs s8 0 w8))"
    using follow_loop_search_round by blast
next
  assume "\<not> white_threshold s + 5 < sensor w (reads w)
        \<and> steer s (sensor w (reads w)) (snd (reflection w)) = Inr (t, u)
        \<and> (\<forall>i<n. white_threshold s + 5 < sensor w (Suc (reads w) + i)) \<and> n \<le> 5"
  then show "\<exists>s6 w6. follow_loop (False # replicate n False) s lost w = Running s6 n w6
           \<and> reads w6 = reads w + Suc n \<and> turns (trace w6) = turns (trace w)"
    using follow_loop_seen_then_lost [of s w t u n lost] by blast
next
  assume "\<not> white_threshold s + 5 < v"
  then show "lost_line_check s lost v w = Inr (s, 0, w)"
    by (rule lost_line_check_seen)
next
  assume "white_threshold s + 5 < v \<and> lost + 1 \<le> 5"
  then show "lost_line_check s lost v w = Inr (s, lost + 1, w)"
    by (simp add: lost_line_check_count)
next
  assume "white_threshold s + 5 < v \<and> 5 < lost + 1"
  then show "lost_line_check s lost v w =
          (case search_line s w of
             (False, s1, w1) \<Rightarrow> Inl (s1, w1)
           | (True, s1, w1) \<Rightarrow> Inr (s1, 0, w1))"
    by (simp add: lost_line_check_search)
next
  assume "lost \<le> 5 \<and> follow_loop bs s lost w = Running s' lost' w'"
  then show "lost' \<le> 5"
    using follow_loop_count_bound by blast
next
  assume "(\<forall>i<n. white_threshold s + 5 < sensor w (reads w + i)) \<and> lost + n \<le> 5"
  then show "\<exists>s5 w5. follow_loop (replicate n False) s lost w = Running s5 (lost + n) w5
           \<and> reads w5 = reads w + n \<and> turns (trace w5) = turns (trace w)"
    using follow_loop_lost_run [of n s w lost] by blast
next
  assume a: "\<forall>i<6. white_threshold s + 5 < sensor w (reads w + i)"
  then have "\<forall>i<5. white_threshold s + 5 < sensor w (reads w + i)" by simp
  then obtain s5 w5 where r: "follow_loop (replicate 5 False) s 0 w = Running s5 (0 + 5) w5"
    "\<exists>p. s5 = s\<lparr>line_position := p\<rparr>" "sensor w5 = sensor w" "reads w5 = reads w + 5"
    "turns (trace w5) = turns (trace w)"
    using follow_loop_lost_run [of 5 s w 0] by auto
  from r(2) have wt: "white_threshold s5 = white_threshold s" by auto
  have v: "white_threshold s5 + 5 < sensor w5 (reads w5)"
    using a r(3,4) wt by simp
  have "follow_loop (replicate 5 False @ False # bs) s 0 w = follow_loop (False # bs) s5 5 w5"
    using r(1) by (simp only: follow_loop_append) simp
  also have "\<dots> = (case search_line s5 (snd (reflection w5)) of
                  (False, s7, w7) \<Rightarrow> Exited line_lost s7 w7
                | (True, s7, w7) \<Rightarrow>
                    (case steer s7 (sensor w (reads w + 5)) w7 of
                       Inl e \<Rightarrow> Raised e
                     | Inr (s8, w8) \<Rightarrow> follow_loop bs s8 0 w8))"
    using v r(3,4)
    by (simp only: follow_loop_round lost_line_check_search order_refl)
      (simp split: prod.splits bool.splits)
  finally show "\<exists>s5 w5. follow_loop (replicate 5 False) s 0 w = Running s5 5 w5
           \<and> turns (trace w5) = turns (trace w)
           \<and> follow_loop (replicate 5 False @ False # bs) s 0 w =
               (case search_line s5 (snd (reflection w5)) of
                  (False, s7, w7) \<Rightarrow> Exited line_lost s7 w7
                | (True, s7, w7) \<Rightarrow>
                    (case steer s7 (sensor w (reads w + 5)) w7 of
                       Inl e \<Rightarrow> Raised e
                     | Inr (s8, w8) \<Rightarrow> follow_loop bs s8 0 w8))"
    using r(1,5) by auto
qed

text \<open>The definitions that evaluate the loop on a concrete input.\<close>

lemmas eval_defs = reflection_def lost_line_check_def search_line_def search_pattern_def
  steer_def detect_sharp_curve_def robot_drive_def robot_turn_def robot_stop_def
  readings_def calibrated_def set_thresholds_def LineTracer_init_def Let_def

text \<open>
  After a calibration with samples 90 and 10, readings of 95 lie above
  \<open>white_threshold + 5 = 90\<close>; 50 and 80 do not. Five lost readings count to 5 with a
  sharp right turn each and no search; the sixth starts the sweep, whose first sample
  40 is below the target 50, and the counter is back at 0. With a reading of 80 after
  three lost ones the counter restarts: after 95, 95, 95, 80, 95, 95, 95 it is 3 and
  no turn was commanded.
\<close>

theorem C7_lost_line_count_witness:
  "lost_line_check calibrated 3 50 (readings [95, 95, 95, 95, 95, 95, 40] 95)
     = Inr (calibrated, 0, readings [95, 95, 95, 95, 95, 95, 40] 95)
   \<and> lost_line_check calibrated 3 95 (readings [95, 95, 95, 95, 95, 95, 40] 95)
     = Inr (calibrated, 4, readings [95, 95, 95, 95, 95, 95, 40] 95)
   \<and> follow_loop [False, False, False, False, False] calibrated 0
       (readings [95, 95, 95, 95, 95, 95, 40] 95)
     = Running (calibrated\<lparr>line_position := 1\<rparr>) 5
         ((readings [95, 95, 95, 95, 95, 95, 40] 95)\<lparr>reads := 5,
            trace := [Reflection 95, Drive 75 200, Reflection 95, Drive 75 200,
                      Reflection 95, Drive 75 200, Reflection 95, Drive 75 200,
                      Reflection 95, Drive 75 200]\<rparr>)
   \<and> follow_loop [False, False, False, False, False, False] calibrated 0
       (readings [95, 95, 95, 95, 95, 95, 40] 95)
     = Running (calibrated\<lparr>line_position := 1\<rparr>) 0
         ((readings [95, 95, 95, 95, 95, 95, 40] 95)\<lparr>reads := 7,
            trace := [Reflection 95, Drive 75 200, Reflection 95, Drive 75 200,
                      Reflection 95, Drive 75 200, Reflection 95, Drive 75 200,
                      Reflection 95, Drive 75 200,
                      Reflection 95, Turn (- 30), Reflection 40, Drive 75 200]\<rparr>)
   \<and> follow_loop [False, False, False, False] calibrated 3 (readings [80, 95, 95, 95] 95)
     = Running (calibrated\<lparr>line_position := 1\<rparr>) 3
         ((readings [80, 95, 95, 95] 95)\<lparr>reads := 4,
            trace := [Reflection 80, Drive 75 200, Reflection 95, Drive 75 200,
                      Reflection 95, Drive 75 200, Reflection 95, Drive 75 200]\<rparr>)
   \<and> follow_loop [False, False, False, False, False, False, False] calibrated 0
       (readings [95, 95, 95, 80, 95, 95, 95] 95)
     = Running (calibrated\<lparr>line_position := 1\<rparr>) 3
         ((readings [95, 95, 95, 80, 95, 95, 95] 95)\<lparr>reads := 7,
            trace := [Reflection 95, Drive 75 200, Reflection 95, Drive 75 200,
                      Reflection 95, Drive 75 200, Reflection 80, Drive 75 200,
                      Reflection 95, Drive 75 200, Reflection 95, Drive 75 200,
                      Reflection 95, Drive 75 200]\<rparr>)"
proof -
  let ?W = "readings [95, 95, 95, 95, 95, 95, 40] 95"
  let ?V = "readings [80, 95, 95, 95] 95"
  have wt: "white_threshold calibrated + 5 = 90"
    by (simp add: calibrated_def)
  have h50: "\<not> white_threshold calibrated + 5 < 50" and h95: "white_threshold calibrated + 5 < 95"
    unfolding wt by simp_all
  have c1: "lost_line_check calibrated 3 50 ?W = Inr (calibrated, 0, ?W)"
    using C7_lost_line_count [where s = calibrated and v = 50 and lost = 3 and w = ?W] h50
    by blast
  have c2: "lost_line_check calibrated 3 95 ?W = Inr (calibrated, 3 + 1, ?W)"
    using C7_lost_line_count [where s = calibrated and v = 95 and lost = 3 and w = ?W,
        THEN conjunct2, THEN conjunct1] h95
    by simp
  have five: "follow_loop [False, False, False, False, False] calibrated 0 ?W
     = Running (calibrated\<lparr>line_position := 1\<rparr>) 5
         (?W\<lparr>reads := 5,
            trace := [Reflection 95, Drive 75 200, Reflection 95, Drive 75 200,
                      Reflection 95, Drive 75 200, Reflection 95, Drive 75 200,
                      Reflection 95, Drive 75 200]\<rparr>)"
    by (simp add: eval_defs)
  have six: "follow_loop [False, False, False, False, False, False] calibrated 0 ?W
     = Running (calibrated\<lparr>line_position := 1\<rparr>) 0
         (?W\<lparr>reads := 7,
            trace := [Reflection 95, Drive 75 200, Reflection 95, Drive 75 200,
                      Reflection 95, Drive 75 200, Reflection 95, Drive 75 200,
                      Reflection 95, Drive 75 200,
                      Reflection 95, Turn (- 30), Reflection 40, Drive 75 200]\<rparr>)"
    by (simp add: eval_defs)
  have seen: "\<not> white_threshold calibrated + 5 < sensor ?V (reads ?V)"
    unfolding wt by (simp add: readings_def)
  have st: "steer calibrated (sensor ?V (reads ?V)) (snd (reflection ?V))
              = Inr (calibrated\<lparr>line_position := 1\<rparr>, robot_drive 75 200 (snd (reflection ?V)))"
    by (simp add: eval_defs)
  have lost: "\<forall>i<3. white_threshold calibrated + 5 < sensor ?V (Suc (reads ?V) + i)"
    unfolding wt by (simp add: readings_def nth_Cons' less_Suc_eq numeral_3_eq_3)
  have n: "(3 :: nat) \<le> 5"
    by simp
  have "\<exists>s6 w6. follow_loop (False # replicate 3 False) calibrated 3 ?V = Running s6 3 w6
           \<and> reads w6 = reads ?V + Suc 3 \<and> turns (trace w6) = turns (trace ?V)"
    using C7_lost_line_count [where s = calibrated and lost = 3 and w = ?V and n = 3
        and t = "calibrated\<lparr>line_position := 1\<rparr>"
        and u = "robot_drive 75 200 (snd (reflection ?V))",
        THEN conjunct2, THEN conjunct2, THEN conjunct2, THEN conjunct2, THEN conjunct2,
        THEN conjunct2, THEN conjunct2, THEN conjunct2, THEN conjunct2] seen st lost n
    by blast
  then have restart: "follow_loop [False, False, False, False] calibrated 3 ?V
     = Running (calibrated\<lparr>line_position := 1\<rparr>) 3
         (?V\<lparr>reads := 4,
            trace := [Reflection 80, Drive 75 200, Reflection 95, Drive 75 200,
                      Reflection 95, Drive 75 200, Reflection 95, Drive 75 200]\<rparr>)"
    by (simp add: eval_defs)
  have seven: "follow_loop [False, False, False, False, False, False, False] calibrated 0
       (readings [95, 95, 95, 80, 95, 95, 95] 95)
     = Running (calibrated\<lparr>line_position := 1\<rparr>) 3
         ((readings [95, 95, 95, 80, 95, 95, 95] 95)\<lparr>reads := 7,
            trace := [Reflection 95, Drive 75 200, Reflection 95, Drive 75 200,
                      Reflection 95, Drive 75 200, Reflection 80, Drive 75 200,
                      Reflection 95, Drive 75 200, Reflection 95, Drive 75 200,
                      Reflection 95, Drive 75 200]\<rparr>)"
    by (simp add: eval_defs)
  show ?thesis
    using c1 c2 five six restart seven by simp
qed

lemma follow_line_exit:
  "is_calibrated s \<Longrightarrow> follow_loop bs s 0 w = Exited r s' w' \<Longrightarrow>
   follow_line s bs w = Exited r s' (robot_stop w')"
  by (simp add: follow_line_def)

lemma turns_sweep_events [simp]: "turns (sweep_events as f k) = as"
  by (induction as arbitrary: k) simp_all

lemma length_sweep_events [simp]: "length (sweep_events as f k) = 2 * length as"
  by (induction as arbitrary: k) simp_all

text \<open>
  C8. If the six readings taken during the search are all at least \<open>target_value\<close>,
  \<^verbatim>\<open>search_line\<close> returns \<^verbatim>\<open>False\<close> after exactly six steps, each a turn by the
  next angle of its pattern followed by one sample, and then a stop command; the
  object is unchanged. A round of the loop that starts such a search (reading above
  \<open>white_threshold + 5\<close>, counter at 5 or more) leaves the loop with the outcome
  "line lost", and \<^verbatim>\<open>follow_line\<close> returns after stopping the robot.
\<close>

theorem C8_search_failure:
  "((\<forall>i<6. target_value s \<le> sensor w (reads w + i)) \<longrightarrow>
      search_line s w
        = (False, s, w\<lparr>reads := reads w + 6,
             trace := trace w @ sweep_events (search_pattern s) (sensor w) (reads w) @ [Stop]\<rparr>)
      \<and> length (search_pattern s) = 6
      \<and> turns (sweep_events (search_pattern s) (sensor w) (reads w)) = search_pattern s
      \<and> length (sweep_events (search_pattern s) (sensor w) (reads w)) = 12)
   \<and> ((\<forall>i<6. target_value s \<le> sensor w (Suc (reads w) + i))
        \<and> white_threshold s + 5 < sensor w (reads w) \<and> 5 \<le> lost \<longrightarrow>
      follow_loop (False # bs) s lost w
        = Exited line_lost s (w\<lparr>reads := reads w + 7,
             trace := trace w @ Reflection (sensor w (reads w))
                      # sweep_events (search_pattern s) (sensor w) (Suc (reads w)) @ [Stop]\<rparr>))
   \<and> (is_calibrated s \<and> follow_loop bs s 0 w = Exited line_lost s' w' \<longrightarrow>
        follow_line s bs w = Exited line_lost s' (robot_stop w'))"
proof (intro conjI impI)
  assume a: "\<forall>i<6. target_value s \<le> sensor w (reads w + i)"
  show "search_line s w
        = (False, s, w\<lparr>reads := reads w + 6,
             trace := trace w @ sweep_events (search_pattern s) (sensor w) (reads w) @ [Stop]\<rparr>)"
    using a by (rule search_line_fail)
next
  assume a: "(\<forall>i<6. target_value s \<le> sensor w (Suc (reads w) + i))
        \<and> white_threshold s + 5 < sensor w (reads w) \<and> 5 \<le> lost"
  let ?w1 = "snd (reflection w)"
  from a have "\<forall>i<6. target_value s \<le> sensor ?w1 (reads ?w1 + i)" by simp
  then have "search_line s ?w1
        = (False, s, ?w1\<lparr>reads := reads ?w1 + 6,
             trace := trace ?w1 @ sweep_events (search_pattern s) (sensor ?w1) (reads ?w1) @ [Stop]\<rparr>)"
    by (rule search_line_fail)
  moreover have "?w1\<lparr>reads := reads ?w1 + 6,
             trace := trace ?w1 @ sweep_events (search_pattern s) (sensor ?w1) (reads ?w1) @ [Stop]\<rparr>
     = w\<lparr>reads := reads w + 7,
             trace := trace w @ Reflection (sensor w (reads w))
                      # sweep_events (search_pattern s) (sensor w) (Suc (reads w)) @ [Stop]\<rparr>"
    by (simp add: reflection_def)
  ultimately show "follow_loop (False # bs) s lost w
        = Exited line_lost s (w\<lparr>reads := reads w + 7,
             trace := trace w @ Reflection (sensor w (reads w))
                      # sweep_events (search_pattern s) (sensor w) (Suc (reads w)) @ [Stop]\<rparr>)"
    using a by (simp only: follow_loop_round lost_line_check_search) simp
next
  assume "is_calibrated s \<and> follow_loop bs s 0 w = Exited line_lost s' w'"
  then show "follow_line s bs w = Exited line_lost s' (robot_stop w')"
    by (simp add: follow_line_exit)
qed simp_all

text \<open>
  Readings of 95 throughout: the sweep -30, 60, -90, 120, -150, 180 fails. The whole
  run from the constructor: two confirmed samples, five sharp right turns, the failed
  sweep on the sixth round, the stop of \<^verbatim>\<open>search_line\<close> and the stop after the loop.
\<close>

theorem C8_search_failure_witness:
  "search_line calibrated (readings [] 95)
     = (False, calibrated, (readings [] 95)\<lparr>reads := 6,
          trace := [Turn (- 30), Reflection 95, Turn 60, Reflection 95, Turn (- 90), Reflection 95,
                    Turn 120, Reflection 95, Turn (- 150), Reflection 95, Turn 180, Reflection 95,
                    Stop]\<rparr>)
   \<and> follow_loop [False] calibrated 5 (readings [] 95)
     = Exited line_lost calibrated ((readings [] 95)\<lparr>reads := 7,
          trace := [Reflection 95,
                    Turn (- 30), Reflection 95, Turn 60, Reflection 95, Turn (- 90), Reflection 95,
                    Turn 120, Reflection 95, Turn (- 150), Reflection 95, Turn 180, Reflection 95,
                    Stop]\<rparr>)
   \<and> follow_line LineTracer_init [True, True, False, False, False, False, False, False]
        (readings [90, 10] 95)
     = Exited line_lost (calibrated\<lparr>line_position := 1\<rparr>) ((readings [90, 10] 95)\<lparr>reads := 14,
          trace := [Reflection 90, Reflection 10,
                    Reflection 95, Drive 75 200, Reflection 95, Drive 75 200,
                    Reflection 95, Drive 75 200, Reflection 95, Drive 75 200,
                    Reflection 95, Drive 75 200, Reflection 95,
                    Turn (- 30), Reflection 95, Turn 60, Reflection 95, Turn (- 90), Reflection 95,
                    Turn 120, Reflection 95, Turn (- 150), Reflection 95, Turn 180, Reflection 95,
                    Stop, Stop]\<rparr>)"
proof -
  let ?W = "readings [] 95"
  have cfg: "target_value calibrated = 50" "white_threshold calibrated = 85"
    "search_pattern calibrated = [- 30, 60, - 90, 120, - 150, 180]"
    by (simp_all add: calibrated_def search_pattern_def LineTracer_init_def)
  have w: "sensor ?W = (\<lambda>k. 95)" "reads ?W = 0" "trace ?W = []"
    by (simp_all add: readings_def)
  have full: "follow_line LineTracer_init [True, True, False, False, False, False, False, False]
        (readings [90, 10] 95)
     = Exited line_lost (calibrated\<lparr>line_position := 1\<rparr>) ((readings [90, 10] 95)\<lparr>reads := 14,
          trace := [Reflection 90, Reflection 10,
                    Reflection 95, Drive 75 200, Reflection 95, Drive 75 200,
                    Reflection 95, Drive 75 200, Reflection 95, Drive 75 200,
                    Reflection 95, Drive 75 200, Reflection 95,
                    Turn (- 30), Reflection 95, Turn 60, Reflection 95, Turn (- 90), Reflection 95,
                    Turn 120, Reflection 95, Turn (- 150), Reflection 95, Turn 180, Reflection 95,
                    Stop, Stop]\<rparr>)"
    by (simp add: follow_line_def calibrate_def eval_defs)
  show ?thesis
    using C8_search_failure [where s = calibrated and w = ?W and lost = 5 and bs = "[]"] cfg w full
    by (simp add: numeral_eq_Suc)
qed

text \<open>A sharp-curve round leaves the regulator's state as it was.\<close>

lemma steer_sharp_keeps:
  assumes "detect_sharp_curve s v = Some c" "steer s v w = Inr (s', w')"
  shows "integral s' = integral s" "error_history s' = error_history s"
    "last_error s' = last_error s"
  using assms(2) unfolding steer_sharp [OF assms(1)] by auto

text \<open>
  C6, evaluated. The run: calibration with samples 90 and 10, a round with reading 60
  (regulator: error 10, integral 10), then a round with reading 15, a sharp left curve.
  The second round commands half speed 75 and turn rate -200 and leaves history and
  last error alone, as claimed, but the integral is still 10 afterwards: \<^verbatim>\<open>follow_line\<close>
  has no reset. The curve block of Level4_Program.py, on the same reading with the
  same integral, sets it to 0.
\<close>

theorem C6_integral_kept:
  "follow_line LineTracer_init [True, True, False, False] (readings [90, 10, 60, 15] 0)
     = Running ((snd (calculate_pid calibrated 60))\<lparr>line_position := - 1\<rparr>) 0
         ((readings [90, 10, 60, 15] 0)\<lparr>reads := 4,
            trace := [Reflection 90, Reflection 10, Reflection 60, Drive (17904 / 125) (141 / 5),
                      Reflection 15, Drive 75 (- 200)]\<rparr>)
   \<and> detect_sharp_curve (snd (calculate_pid calibrated 60)) 15 = Some sharp_left
   \<and> integral ((snd (calculate_pid calibrated 60))\<lparr>line_position := - 1\<rparr>) = 10
   \<and> steer_l4 \<lparr>g_integral = 10, g_last_error = 10\<rparr> 50 15 85 15 (readings [] 0)
     = (\<lparr>g_integral = 0, g_last_error = 10\<rparr>, robot_drive 75 (- 200) (readings [] 0))"
proof -
  have pid: "calculate_pid calibrated 60
     = (141 / 5, calibrated\<lparr>error_history := [10], integral := 10, last_error := 10\<rparr>)"
    by (simp add: calculate_pid_def push_history_def accumulate_def damp_def limit_turn_def
        detect_oscillation_def calibrated_def set_thresholds_def LineTracer_init_def Let_def)
  have run: "follow_line LineTracer_init [True, True, False, False] (readings [90, 10, 60, 15] 0)
     = Running ((snd (calculate_pid calibrated 60))\<lparr>line_position := - 1\<rparr>) 0
         ((readings [90, 10, 60, 15] 0)\<lparr>reads := 4,
            trace := [Reflection 90, Reflection 10, Reflection 60, Drive (17904 / 125) (141 / 5),
                      Reflection 15, Drive 75 (- 200)]\<rparr>)"
    unfolding pid
    by (simp add: follow_line_def calibrate_def eval_defs calculate_pid_def push_history_def
        accumulate_def damp_def limit_turn_def detect_oscillation_def)
  have l4: "steer_l4 \<lparr>g_integral = 10, g_last_error = 10\<rparr> 50 15 85 15 (readings [] 0)
     = (\<lparr>g_integral = 0, g_last_error = 10\<rparr>, robot_drive 75 (- 200) (readings [] 0))"
    by (simp add: steer_l4_def detect_sharp_curve_l4_def)
  show ?thesis
    using run l4 unfolding pid
    by (simp add: detect_sharp_curve_def calibrated_def)
qed

lemma search_loop_keeps:
  "gray_zone (fst (snd (search_loop as s w))) = gray_zone s
   \<and> max_turn_rate (fst (snd (search_loop as s w))) = max_turn_rate s"
  by (induction as arbitrary: w) (simp_all add: search_loop_step del: search_loop.simps(2))

lemma search_line_keeps:
  "search_line s w = (found, s1, w1) \<Longrightarrow>
   gray_zone s1 = gray_zone s \<and> max_turn_rate s1 = max_turn_rate s"
  using search_loop_keeps [of "search_pattern s" s w]
  by (auto simp: search_line_def Let_def split: prod.splits if_splits)

lemma lost_line_check_keeps:
  "lost_line_check s lost v w = Inr (s2, lost2, w2) \<Longrightarrow>
   gray_zone s2 = gray_zone s \<and> max_turn_rate s2 = max_turn_rate s"
  by (auto simp: lost_line_check_def Let_def split: if_splits prod.splits bool.splits
      dest: search_line_keeps)

lemma steer_keeps:
  "steer s v w = Inr (s3, w3) \<Longrightarrow>
   gray_zone s3 = gray_zone s \<and> max_turn_rate s3 = max_turn_rate s"
proof (cases "detect_sharp_curve s v")
  case None
  assume "steer s v w = Inr (s3, w3)"
  with None show ?thesis
    by (auto simp: steer_def Let_def case_prod_beta split: if_splits option.splits)
next
  case (Some c)
  assume "steer s v w = Inr (s3, w3)"
  then show ?thesis unfolding steer_sharp [OF Some] by auto
qed

text \<open>
  The only ways the loop can raise: a zero \<open>max_turn_rate\<close> in the speed reduction, or
  a missing \<open>gray_zone\<close> in the line-position update.
\<close>

lemma steer_raises:
  "steer s v w = Inl e \<Longrightarrow>
   (e = ZeroDivisionError \<and> max_turn_rate s = 0) \<or> (e = AttributeError \<and> gray_zone s = None)"
proof (cases "detect_sharp_curve s v")
  case None
  assume "steer s v w = Inl e"
  with None show ?thesis
    by (auto simp: steer_def Let_def case_prod_beta split: if_splits option.splits)
next
  case (Some c)
  assume "steer s v w = Inl e"
  then show ?thesis unfolding steer_sharp [OF Some] by simp
qed

lemma follow_loop_raises:
  "follow_loop bs s lost w = Raised e \<Longrightarrow>
   (e = ZeroDivisionError \<and> max_turn_rate s = 0) \<or> (e = AttributeError \<and> gray_zone s = None)"
proof (induction bs arbitrary: s lost w)
  case Nil
  then show ?case by simp
next
  case (Cons b bs)
  show ?case
  proof (cases b)
    case True
    with Cons.prems show ?thesis by simp
  next
    case False
    let ?v = "sensor w (reads w)"
    from Cons.prems False have r: "(case lost_line_check s lost ?v (snd (reflection w)) of
        Inl (s2, w2) \<Rightarrow> Exited line_lost s2 w2
      | Inr (s2, lost2, w2) \<Rightarrow>
          (case steer s2 ?v w2 of
             Inl e \<Rightarrow> Raised e
           | Inr (s3, w3) \<Rightarrow> follow_loop bs s3 lost2 w3)) = Raised e"
      by (simp only: follow_loop_round)
    then obtain s2 lost2 w2 where
      c: "lost_line_check s lost ?v (snd (reflection w)) = Inr (s2, lost2, w2)"
      and st: "(case steer s2 ?v w2 of Inl e \<Rightarrow> Raised e
                | Inr (s3, w3) \<Rightarrow> follow_loop bs s3 lost2 w3) = Raised e"
      by (auto split: sum.splits prod.splits)
    have k2: "gray_zone s2 = gray_zone s" "max_turn_rate s2 = max_turn_rate s"
      using lost_line_check_keeps [OF c] by simp_all
    show ?thesis
    proof (cases "steer s2 ?v w2")
      case (Inl e')
      with st have "e' = e" by simp
      with Inl steer_raises [of s2 ?v w2 e] k2 show ?thesis by simp
    next
      case (Inr p)
      obtain s3 w3 where p: "p = (s3, w3)" by (cases p)
      with Inr st have "follow_loop bs s3 lost2 w3 = Raised e" by simp
      then have "(e = ZeroDivisionError \<and> max_turn_rate s3 = 0)
                 \<or> (e = AttributeError \<and> gray_zone s3 = None)"
        by (rule Cons.IH)
      moreover have "gray_zone s3 = gray_zone s2" "max_turn_rate s3 = max_turn_rate s2"
        using steer_keeps [of s2 ?v w2 s3 w3] Inr p by simp_all
      ultimately show ?thesis using k2 by simp
    qed
  qed
qed

lemma follow_loop_not_calibrating: "follow_loop bs s lost w \<noteq> Calibrating"
proof (induction bs arbitrary: s lost w)
  case Nil
  then show ?case by simp
next
  case (Cons b bs)
  show ?case
  proof (cases b)
    case True
    then show ?thesis by simp
  next
    case False
    then show ?thesis
      using Cons.IH by (simp only: follow_loop_round) (simp split: sum.splits prod.splits)
  qed
qed

lemma follow_line_raises:
  assumes "follow_line s bs w = Raised e"
  shows "(e = ZeroDivisionError \<and> max_turn_rate s = 0)
         \<or> (e = AttributeError \<and> is_calibrated s \<and> gray_zone s = None)"
proof (cases "is_calibrated s")
  case True
  with assms have "follow_loop bs s 0 w = Raised e"
    by (simp add: follow_line_def split: outcome.splits)
  then show ?thesis using follow_loop_raises True by blast
next
  case False
  with assms obtain s1 bs1 w1 where c: "calibrate s bs w = Some (s1, bs1, w1)"
    and l: "follow_loop bs1 s1 0 w1 = Raised e"
    by (auto simp: follow_line_def split: option.splits outcome.splits)
  from calibrate_Some [OF c] obtain wv bv where "s1 = set_thresholds s wv bv" by blast
  then have "gray_zone s1 \<noteq> None" "max_turn_rate s1 = max_turn_rate s" by simp_all
  with follow_loop_raises [OF l] show ?thesis by auto
qed

text \<open>
  C10. For an object that is not calibrated, \<^verbatim>\<open>follow_line\<close> runs \<^verbatim>\<open>calibrate\<close>
  first: while the button polls hold no two confirmations it is still calibrating, and
  otherwise it enters the loop with the object that \<^verbatim>\<open>calibrate\<close> returned, in which
  \<open>gray_zone\<close> is set. \<^verbatim>\<open>follow_line\<close> then never raises for a missing \<open>gray_zone\<close>,
  and with a non-zero \<open>max_turn_rate\<close> (the constructor sets 250) it raises nothing.
\<close>

theorem C10_gray_zone_defined:
  "\<not> is_calibrated s \<longrightarrow>
     (calibrate s bs w = Some (s1, bs1, w1) \<longrightarrow> is_calibrated s1 \<and> gray_zone s1 \<noteq> None)
     \<and> (follow_line s bs w = Calibrating) = (calibrate s bs w = None)
     \<and> (calibrate s bs w = Some (s1, bs1, w1) \<longrightarrow>
          follow_line s bs w =
            (case follow_loop bs1 s1 0 w1 of
               Exited r s2 w2 \<Rightarrow> Exited r s2 (robot_stop w2)
             | other \<Rightarrow> other))
     \<and> follow_line s bs w \<noteq> Raised AttributeError
     \<and> (max_turn_rate s \<noteq> 0 \<longrightarrow> follow_line s bs w \<noteq> Raised e)"
proof (intro impI conjI)
  assume "calibrate s bs w = Some (s1, bs1, w1)"
  then obtain wv bv where "s1 = set_thresholds s wv bv"
    using calibrate_Some by blast
  then show "is_calibrated s1" "gray_zone s1 \<noteq> None" by simp_all
next
  assume "\<not> is_calibrated s"
  then show "(follow_line s bs w = Calibrating) = (calibrate s bs w = None)"
    using follow_loop_not_calibrating
    by (auto simp: follow_line_def split: option.splits outcome.splits)
next
  assume "\<not> is_calibrated s" "calibrate s bs w = Some (s1, bs1, w1)"
  then show "follow_line s bs w =
            (case follow_loop bs1 s1 0 w1 of
               Exited r s2 w2 \<Rightarrow> Exited r s2 (robot_stop w2)
             | other \<Rightarrow> other)"
    by (simp add: follow_line_def)
next
  assume "\<not> is_calibrated s"
  then show "follow_line s bs w \<noteq> Raised AttributeError"
    using follow_line_raises [of s bs w AttributeError] by auto
next
  assume "\<not> is_calibrated s" "max_turn_rate s \<noteq> 0"
  then show "follow_line s bs w \<noteq> Raised e"
    using follow_line_raises [of s bs w e] by auto
qed


text \<open>
  From the constructor, where \<open>gray_zone\<close> is missing: two confirmed samples, then a
  round with reading 60, which takes the regulator branch and finds the gray zone 21.
\<close>

theorem C10_gray_zone_defined_witness:
  "\<not> is_calibrated LineTracer_init \<and> gray_zone LineTracer_init = None
   \<and> max_turn_rate LineTracer_init = 250
   \<and> calibrate LineTracer_init [True, True, False] (readings [90, 10, 60] 0)
       = Some (calibrated, [False],
           (readings [90, 10, 60] 0)\<lparr>reads := 2, trace := [Reflection 90, Reflection 10]\<rparr>)
   \<and> is_calibrated calibrated \<and> gray_zone calibrated = Some 21
   \<and> detect_sharp_curve calibrated 60 = None
   \<and> follow_line LineTracer_init [True, True, False] (readings [90, 10, 60] 0)
       = Running ((snd (calculate_pid calibrated 60))\<lparr>line_position := 0\<rparr>) 0
           ((readings [90, 10, 60] 0)\<lparr>reads := 3,
              trace := [Reflection 90, Reflection 10, Reflection 60,
                        Drive (17904 / 125) (141 / 5)]\<rparr>)
   \<and> follow_line LineTracer_init [True, True, False] (readings [90, 10, 60] 0)
       \<noteq> Raised AttributeError"
proof -
  let ?W = "readings [90, 10, 60] 0"
  have init: "\<not> is_calibrated LineTracer_init" "gray_zone LineTracer_init = None"
    "max_turn_rate LineTracer_init = 250"
    by (simp_all add: LineTracer_init_def)
  have cal: "calibrate LineTracer_init [True, True, False] ?W
       = Some (calibrated, [False], ?W\<lparr>reads := 2, trace := [Reflection 90, Reflection 10]\<rparr>)"
    by (simp add: calibrate_def reflection_def readings_def calibrated_def)
  have cfg: "is_calibrated calibrated" "gray_zone calibrated = Some 21"
    "detect_sharp_curve calibrated 60 = None"
    by (simp_all add: calibrated_def detect_sharp_curve_def)
  have pid: "calculate_pid calibrated 60
     = (141 / 5, calibrated\<lparr>error_history := [10], integral := 10, last_error := 10\<rparr>)"
    by (simp add: calculate_pid_def push_history_def accumulate_def damp_def limit_turn_def
        detect_oscillation_def calibrated_def set_thresholds_def LineTracer_init_def Let_def)
  have run: "follow_line LineTracer_init [True, True, False] ?W
       = Running ((snd (calculate_pid calibrated 60))\<lparr>line_position := 0\<rparr>) 0
           (?W\<lparr>reads := 3,
              trace := [Reflection 90, Reflection 10, Reflection 60,
                        Drive (17904 / 125) (141 / 5)]\<rparr>)"
    unfolding pid
    by (simp add: follow_line_def calibrate_def eval_defs calculate_pid_def push_history_def
        accumulate_def damp_def limit_turn_def detect_oscillation_def)
  have no: "follow_line LineTracer_init [True, True, False] ?W \<noteq> Raised AttributeError"
    using C10_gray_zone_defined [of LineTracer_init "[True, True, False]" ?W calibrated "[False]"
        "?W\<lparr>reads := 2, trace := [Reflection 90, Reflection 10]\<rparr>" AttributeError]
      init(1)
    by blast
  show ?thesis
    using init cal cfg run no by simp
qed

end
